theory Spec2Isabelle
  imports Main "HOL-Library.AList"
begin

section \<open>Python values used by crumbler.py\<close>

text \<open>
  Strings are \<open>string\<close>: lists of 8-bit characters, each standing for one Python
  character below U+0100; a \<open>str\<close> with a character beyond that has no counterpart here.
  Every \<open>raise\<close> of the source or of a library function it calls is a value \<open>Inl e\<close> of a
  sum type; \<open>Unmodelled\<close> marks the two places where the model stops short of the
  library: format fields beyond a plain name, and \<open>os.path.exists\<close> for a relative path
  when the working directory has been removed.
\<close>

datatype error =
  ValueError | TypeError | AttributeError | KeyError | IndexError | FileNotFoundError
  | Unmodelled

abbreviation sep :: char where
  "sep \<equiv> CHR ''/''"

abbreviation bslash :: char where
  "bslash \<equiv> CHR 0x5C"

abbreviation newline :: char where
  "newline \<equiv> CHR 0x0A"

text \<open>\<open>s.startswith(p)\<close> and \<open>s.endswith(p)\<close>.\<close>

definition startswith :: "string \<Rightarrow> string \<Rightarrow> bool" where
  "startswith s p = (take (length p) s = p)"

definition endswith :: "string \<Rightarrow> string \<Rightarrow> bool" where
  "endswith s p = (length p \<le> length s \<and> drop (length s - length p) s = p)"

text \<open>
  \<open>s.replace(old, new)\<close>: every non-overlapping occurrence of \<open>old\<close>, found from the left.
  For an empty \<open>old\<close> Python puts \<open>new\<close> around every character.
\<close>

function replace :: "string \<Rightarrow> string \<Rightarrow> string \<Rightarrow> string" where
  "replace [] new s = new @ concat (map (\<lambda>c. c # new) s)"
| "replace (a # old) new [] = []"
| "replace (a # old) new (c # cs) =
     (if startswith (c # cs) (a # old)
      then new @ replace (a # old) new (drop (length old) cs)
      else c # replace (a # old) new cs)"
  by pat_completeness auto
termination
  by (relation "measure (\<lambda>(old, new, s). length s)") auto

text \<open>\<open>s.split(d)\<close> for a one-character separator: never the empty list.\<close>

fun split_on :: "char \<Rightarrow> string \<Rightarrow> string list" where
  "split_on d [] = [[]]"
| "split_on d (c # cs) =
     (if c = d then [] # split_on d cs
      else (case split_on d cs of [] \<Rightarrow> [[c]] | w # ws \<Rightarrow> (c # w) # ws))"

text \<open>\<open>d.join(xs)\<close>.\<close>

fun str_join :: "string \<Rightarrow> string list \<Rightarrow> string" where
  "str_join d [] = []"
| "str_join d [x] = x"
| "str_join d (x # y # ys) = x @ d @ str_join d (y # ys)"

section \<open>os.path on a POSIX host\<close>

text \<open>
  The source calls \<open>os.path.join\<close>, \<open>basename\<close>, \<open>abspath\<close>, \<open>relpath\<close> and \<open>exists\<close>.
  They are modelled after CPython's \<open>posixpath\<close> module. The working directory of the
  process is the explicit parameter \<open>wd\<close>: \<open>Some cwd\<close> when \<open>os.getcwd()\<close> returns \<open>cwd\<close>,
  \<open>None\<close> when the directory has been removed and \<open>os.getcwd()\<close> raises
  \<open>FileNotFoundError\<close>.
\<close>

definition getcwd :: "string option \<Rightarrow> error + string" where
  "getcwd wd = (case wd of None \<Rightarrow> Inl FileNotFoundError | Some cwd \<Rightarrow> Inr cwd)"

definition isabs :: "string \<Rightarrow> bool" where
  "isabs p = startswith p ''/''"

text \<open>\<open>os.path.join(a, b)\<close>, and \<open>os.path.join(a, *p)\<close> as the loop over \<open>p\<close>.\<close>

definition join :: "string \<Rightarrow> string \<Rightarrow> string" where
  "join path b =
     (if startswith b ''/'' then b
      else if path = [] \<or> endswith path ''/'' then path @ b
      else path @ ''/'' @ b)"

definition join_list :: "string \<Rightarrow> string list \<Rightarrow> string" where
  "join_list a p = foldl join a p"

text \<open>\<open>os.path.basename(p)\<close>: what follows the last separator.\<close>

definition basename :: "string \<Rightarrow> string" where
  "basename p = rev (takeWhile (\<lambda>c. c \<noteq> sep) (rev p))"

text \<open>
  \<open>os.path.normpath\<close>: the number of leading slashes that survive (two are kept, three
  or more collapse to one), then the loop over the components with its stack
  \<open>new_comps\<close>.
\<close>

definition initial_slashes :: "string \<Rightarrow> nat" where
  "initial_slashes path =
     (if \<not> startswith path ''/'' then 0
      else if startswith path ''//'' \<and> \<not> startswith path ''///'' then 2
      else 1)"

fun norm_comps :: "nat \<Rightarrow> string list \<Rightarrow> string list \<Rightarrow> string list" where
  "norm_comps n new_comps [] = new_comps"
| "norm_comps n new_comps (cmp # comps) =
     (if cmp = [] \<or> cmp = ''.'' then norm_comps n new_comps comps
      else if cmp \<noteq> ''..'' \<or> (n = 0 \<and> new_comps = [])
              \<or> (new_comps \<noteq> [] \<and> last new_comps = ''..'')
        then norm_comps n (new_comps @ [cmp]) comps
      else if new_comps \<noteq> [] then norm_comps n (butlast new_comps) comps
      else norm_comps n new_comps comps)"

definition normpath :: "string \<Rightarrow> string" where
  "normpath path =
     (if path = [] then ''.''
      else
        let n = initial_slashes path;
            comps = norm_comps n [] (split_on sep path);
            p = str_join ''/'' comps;
            p = (if n > 0 then replicate n sep @ p else p)
        in if p = [] then ''.'' else p)"

text \<open>\<open>os.path.abspath\<close> asks for the working directory only for a relative path.\<close>

definition abspath :: "string option \<Rightarrow> string \<Rightarrow> error + string" where
  "abspath wd path =
     (if \<not> isabs path then
        (case getcwd wd of
           Inl e \<Rightarrow> Inl e
         | Inr cwd \<Rightarrow> Inr (normpath (join cwd path)))
      else Inr (normpath path))"

text \<open>
  \<open>genericpath.commonprefix\<close> of two component lists. The library compares the smaller
  list with the larger one position by position; that is their longest common prefix.
\<close>

fun commonprefix :: "'a list \<Rightarrow> 'a list \<Rightarrow> 'a list" where
  "commonprefix (x # xs) (y # ys) = (if x = y then x # commonprefix xs ys else [])"
| "commonprefix xs ys = []"

text \<open>The non-empty components of an absolute path, as \<open>relpath\<close> computes them.\<close>

definition path_list :: "string \<Rightarrow> string list" where
  "path_list p = filter (\<lambda>x. x \<noteq> []) (split_on sep p)"

text \<open>
  \<open>os.path.relpath(path, start)\<close>; it raises \<open>ValueError\<close> on an empty path, and what
  \<open>abspath\<close> raises, first for \<open>start\<close> and then for \<open>path\<close>.
\<close>

definition relpath :: "string option \<Rightarrow> string \<Rightarrow> string \<Rightarrow> error + string" where
  "relpath wd path start =
     (if path = [] then Inl ValueError
      else
        (case abspath wd start of
           Inl e \<Rightarrow> Inl e
         | Inr start_abs \<Rightarrow>
             (case abspath wd path of
                Inl e \<Rightarrow> Inl e
              | Inr path_abs \<Rightarrow>
                  let start_list = path_list start_abs;
                      path_list = path_list path_abs;
                      i = length (commonprefix start_list path_list);
                      rel_list = replicate (length start_list - i) ''..'' @ drop i path_list
                  in if rel_list = [] then Inr ''.''
                     else Inr (join_list (hd rel_list) (tl rel_list)))))"

section \<open>get_url_path\<close>

text \<open>
  \<open>os.path\<close> is the path module of the host the program runs on. \<open>get_url_path\<close> is
  written once over the three functions of \<open>os.path\<close> that it calls, and then for the
  POSIX host above. It has no \<open>try\<close>: what \<open>abspath\<close> or \<open>relpath\<close> raises leaves the
  function. \<open>re.match('^/', url)\<close> is \<open>url.startswith('/')\<close>.
\<close>

record os_path =
  op_join :: "string \<Rightarrow> string \<Rightarrow> string"
  op_abspath :: "string \<Rightarrow> error + string"
  op_relpath :: "string \<Rightarrow> string \<Rightarrow> error + string"

definition get_url_path_on ::
  "os_path \<Rightarrow> string \<Rightarrow> string \<Rightarrow> string \<Rightarrow> string \<Rightarrow> error + string" where
  "get_url_path_on host link path root webroot =
     (let link = replace ''file:///'' [] link
      in case op_abspath host (op_join host path link) of
           Inl e \<Rightarrow> Inl e
         | Inr link_path \<Rightarrow>
             (case op_abspath host root of
                Inl e \<Rightarrow> Inl e
              | Inr root_path \<Rightarrow>
                  (case op_relpath host link_path root_path of
                     Inl e \<Rightarrow> Inl e
                   | Inr url \<Rightarrow>
                       let url = op_join host webroot url;
                           url = replace [bslash] ''/'' url;
                           url = (if \<not> startswith url ''/'' then ''/'' @ url else url)
                       in Inr url)))"

definition posixpath :: "string option \<Rightarrow> os_path" where
  "posixpath wd = \<lparr>op_join = join, op_abspath = abspath wd, op_relpath = relpath wd\<rparr>"

definition get_url_path ::
  "string option \<Rightarrow> string \<Rightarrow> string \<Rightarrow> string \<Rightarrow> string \<Rightarrow> error + string" where
  "get_url_path wd link path root webroot = get_url_path_on (posixpath wd) link path root webroot"


section \<open>String helpers of the source\<close>

text \<open>The ASCII letters and digits.\<close>

definition is_lower :: "char \<Rightarrow> bool" where
  "is_lower c = (c \<in> set ''abcdefghijklmnopqrstuvwxyz'')"

definition is_upper :: "char \<Rightarrow> bool" where
  "is_upper c = (c \<in> set ''ABCDEFGHIJKLMNOPQRSTUVWXYZ'')"

definition is_digit :: "char \<Rightarrow> bool" where
  "is_digit c = (c \<in> set ''0123456789'')"

text \<open>
  Letter case below U+0100, as \<open>str.title\<close> uses it. The cased characters are the ASCII
  letters, the two ordinal indicators, the micro sign and the letters from U+00C0 on.
  The title-case form of a lower-case letter is 32 positions below it, that of the
  sharp s is \<open>Ss\<close>; the lower-case form of an upper-case letter is 32 positions above
  it. The title-case forms of the micro sign and of the y with diaeresis lie beyond
  U+00FF: the model leaves these two characters as they are.
\<close>

definition is_cased :: "char \<Rightarrow> bool" where
  "is_cased c =
     (is_lower c \<or> is_upper c
      \<or> of_char c \<in> {170, 181, 186 :: nat}
      \<or> (192 \<le> (of_char c :: nat) \<and> of_char c \<noteq> (215 :: nat) \<and> of_char c \<noteq> (247 :: nat)))"

definition to_title :: "char \<Rightarrow> string" where
  "to_title c =
     (if is_lower c then [char_of (of_char c - (32::nat))]
      else if of_char c = (223 :: nat) then ''Ss''
      else if 224 \<le> (of_char c :: nat) \<and> (of_char c :: nat) \<le> 254 \<and> of_char c \<noteq> (247 :: nat)
        then [char_of (of_char c - (32::nat))]
      else [c])"

definition to_lower :: "char \<Rightarrow> char" where
  "to_lower c =
     (if is_upper c then char_of (of_char c + (32::nat))
      else if 192 \<le> (of_char c :: nat) \<and> (of_char c :: nat) \<le> 222 \<and> of_char c \<noteq> (215 :: nat)
        then char_of (of_char c + (32::nat))
      else c)"

text \<open>
  The regular expression class \<open>\w\<close> of a \<open>str\<close> pattern: the underscore and what
  \<open>str.isalnum\<close> accepts. Below U+0100 these are the ASCII letters and digits, the
  ordinal indicators, the micro sign, the superscript digits, the three fractions and
  the letters from U+00C0 on except the multiplication and the division sign.
\<close>

definition is_word :: "char \<Rightarrow> bool" where
  "is_word c =
     (is_lower c \<or> is_upper c \<or> is_digit c \<or> c = CHR ''_''
      \<or> of_char c \<in> {170, 178, 179, 181, 185, 186, 188, 189, 190 :: nat}
      \<or> (192 \<le> (of_char c :: nat) \<and> of_char c \<noteq> (215 :: nat) \<and> of_char c \<noteq> (247 :: nat)))"

text \<open>
  \<open>slash_trim(s)\<close> is \<open>re.sub('^\/|\/$', '', s)\<close>: a slash at the very start goes, and so
  does a slash at the end of what follows it, where \<open>$\<close> also matches just before a
  final newline.
\<close>

definition slash_trim :: "string \<Rightarrow> string" where
  "slash_trim s =
     (let s1 = (if startswith s ''/'' then drop 1 s else s)
      in if endswith s1 ''/'' then take (length s1 - 1) s1
         else if endswith s1 [sep, newline] then take (length s1 - 2) s1 @ [newline]
         else s1)"

text \<open>
  \<open>re.match(r'{.*}', href)\<close>: an opening brace first, and a closing brace before the
  first newline after it.
\<close>

definition re_match_placeholder :: "string \<Rightarrow> bool" where
  "re_match_placeholder href =
     (case href of
        [] \<Rightarrow> False
      | c # rest \<Rightarrow> c = CHR ''{'' \<and> CHR ''}'' \<in> set (takeWhile (\<lambda>x. x \<noteq> newline) rest))"

text \<open>
  \<open>re.sub(r'\.md(?:\b|$)', '.html', href)\<close>. After the word character \<open>d\<close> the group
  \<open>(?:\b|$)\<close> holds exactly when the text ends there or goes on with a non-word
  character (a final newline is one).
\<close>

definition md_boundary :: "string \<Rightarrow> bool" where
  "md_boundary rest = (case rest of [] \<Rightarrow> True | c # _ \<Rightarrow> \<not> is_word c)"

function md_sub :: "string \<Rightarrow> string" where
  "md_sub [] = []"
| "md_sub (c # cs) =
     (if startswith (c # cs) ''.md'' \<and> md_boundary (drop 2 cs)
      then ''.html'' @ md_sub (drop 2 cs)
      else c # md_sub cs)"
  by pat_completeness auto
termination
  by (relation "measure length") auto

text \<open>
  \<open>s.title()\<close>: a character is put in title case when the character before it is not
  cased, in lower case otherwise.
\<close>

fun title_from :: "bool \<Rightarrow> string \<Rightarrow> string" where
  "title_from previous_is_cased [] = []"
| "title_from previous_is_cased (c # cs) =
     (if previous_is_cased then [to_lower c] else to_title c) @ title_from (is_cased c) cs"

definition title :: "string \<Rightarrow> string" where
  "title s = title_from False s"

text \<open>
  \<open>template.format(href=..., text=...)\<close>: \<open>{{\<close> and \<open>}}\<close> are literal braces, a lone
  brace is a \<open>ValueError\<close>, the fields \<open>{href}\<close> and \<open>{text}\<close> are replaced, an empty or
  numeric field name is an \<open>IndexError\<close> (there are no positional arguments) unless the
  number is above \<open>sys.maxsize\<close>, which is a \<open>ValueError\<close>; any other plain name is a
  \<open>KeyError\<close>, an opening brace inside a plain name a \<open>ValueError\<close>. The library reads
  the digits a name begins with one by one and raises as soon as their number passes
  \<open>sys.maxsize\<close>, before it looks at what follows them; \<open>sys.maxsize\<close> is that of a
  64-bit build. A field with a conversion, a format specification, an attribute or an
  index (\<open>!\<close>, \<open>:\<close>, \<open>.\<close>, \<open>[\<close>) is not modelled: the answer there is \<open>Inl Unmodelled\<close>,
  and no theorem below draws anything from it.
\<close>

definition maxsize :: int where
  "maxsize = 2 ^ 63 - 1"

definition digits_value :: "string \<Rightarrow> int" where
  "digits_value ds = foldl (\<lambda>acc d. acc * 10 + (of_char d - of_char CHR ''0'')) 0 ds"

definition format_field :: "string \<Rightarrow> string \<Rightarrow> string \<Rightarrow> error + string" where
  "format_field name href text =
     (if set ''!:.['' \<inter> set name \<noteq> {} then Inl Unmodelled
      else if CHR ''{'' \<in> set name then Inl ValueError
      else if name = ''href'' then Inr href
      else if name = ''text'' then Inr text
      else if digits_value (takeWhile is_digit name) > maxsize then Inl ValueError
      else if list_all is_digit name then Inl IndexError
      else Inl KeyError)"

function format :: "string \<Rightarrow> string \<Rightarrow> string \<Rightarrow> error + string" where
  "format [] href text = Inr []"
| "format (c # cs) href text =
     (if c = CHR ''{'' then
        (if startswith cs ''{'' then
           (case format (drop 1 cs) href text of Inl e \<Rightarrow> Inl e | Inr r \<Rightarrow> Inr (c # r))
         else if CHR ''}'' \<notin> set cs then Inl ValueError
         else
           (case format_field (takeWhile (\<lambda>x. x \<noteq> CHR ''}'') cs) href text of
              Inl e \<Rightarrow> Inl e
            | Inr v \<Rightarrow>
                (case format (drop 1 (dropWhile (\<lambda>x. x \<noteq> CHR ''}'') cs)) href text of
                   Inl e \<Rightarrow> Inl e
                 | Inr r \<Rightarrow> Inr (v @ r))))
      else if c = CHR ''}'' then
        (if startswith cs ''}'' then
           (case format (drop 1 cs) href text of Inl e \<Rightarrow> Inl e | Inr r \<Rightarrow> Inr (c # r))
         else Inl ValueError)
      else (case format cs href text of Inl e \<Rightarrow> Inl e | Inr r \<Rightarrow> Inr (c # r)))"
  by pat_completeness auto
termination
  by (relation "measure (\<lambda>(t, href, text). length t)")
     (auto simp: less_Suc_eq_le intro: order_trans [OF diff_le_self length_dropWhile_le])

section \<open>The file system\<close>

text \<open>
  A file system maps the locations that exist, each the list of the names from the
  root down, to the kind of node found there; the root itself is always a directory.
  \<open>os.path.exists(p)\<close> is whether \<open>os.stat(p)\<close> succeeds: the system walks the
  components of \<open>p\<close> from the root, or from the working directory for a relative path.
  Every component, also an empty one, \<open>.\<close> and \<open>..\<close>, is looked up in a directory, so a
  path through a missing directory or through a file does not exist, whatever follows.
  \<open>..\<close> is the parent, and the root is its own parent. There are no symbolic links,
  every directory may be searched, and no path or name reaches a length limit of the
  system.
\<close>

datatype node = File | Dir

type_synonym filesystem = "string list \<Rightarrow> node option"

definition is_dir :: "filesystem \<Rightarrow> string list \<Rightarrow> bool" where
  "is_dir fs loc = (loc = [] \<or> fs loc = Some Dir)"

fun walk :: "filesystem \<Rightarrow> string list \<Rightarrow> string list \<Rightarrow> string list option" where
  "walk fs cur [] = Some cur"
| "walk fs cur (c # cs) =
     (if \<not> is_dir fs cur then None
      else if c = [] \<or> c = ''.'' then walk fs cur cs
      else if c = ''..'' then walk fs (butlast cur) cs
      else if fs (cur @ [c]) = None then None
      else walk fs (cur @ [c]) cs)"

text \<open>
  \<open>os.path.exists\<close> answers \<open>False\<close> for the empty path and for a path with a null
  character. What a relative path denotes after the working directory has been
  removed depends on where that directory was, which \<open>wd\<close> does not record: the model
  gives no answer there.
\<close>

definition path_exists :: "string option \<Rightarrow> filesystem \<Rightarrow> string \<Rightarrow> error + bool" where
  "path_exists wd fs p =
     (if p = [] \<or> CHR 0x00 \<in> set p then Inr False
      else if isabs p then Inr (walk fs [] (split_on sep p) \<noteq> None)
      else
        (case wd of
           None \<Rightarrow> Inl Unmodelled
         | Some cwd \<Rightarrow> Inr (walk fs [] (split_on sep (join cwd p)) \<noteq> None)))"

section \<open>Breadcrumb\<close>

text \<open>
  The class attributes are the fields' defaults: \<open>None\<close> for the three paths, the empty
  string for \<open>text\<close> and \<open>html\<close>.
\<close>

record breadcrumb =
  bc_path :: "string option"
  bc_md_file :: "string option"
  bc_html_file :: "string option"
  bc_text :: string
  bc_html :: string

definition unset_breadcrumb :: breadcrumb where
  "unset_breadcrumb =
     \<lparr>bc_path = None, bc_md_file = None, bc_html_file = None, bc_text = [], bc_html = []\<rparr>"

text \<open>
  The block that each of the three branches of \<open>_get_crumb\<close> ends with. The first two
  branches cut \<open>len(root)\<close> characters off the found path when there is no start path,
  the third \<open>len(root) + 1\<close>: \<open>extra\<close> is that 0 or 1. \<open>if start:\<close> is false for \<open>None\<close>
  and for the empty string.
\<close>

definition crumb_ref ::
  "string option \<Rightarrow> nat \<Rightarrow> string \<Rightarrow> string \<Rightarrow> string option \<Rightarrow> bool \<Rightarrow> string
     \<Rightarrow> error + string" where
  "crumb_ref wd extra crumb_path root start is_local webroot =
     (if is_local then
        (case start of
           Some s \<Rightarrow>
             if s \<noteq> [] then relpath wd crumb_path s
             else Inr (drop (length root + extra) crumb_path)
         | None \<Rightarrow> Inr (drop (length root + extra) crumb_path))
      else get_url_path wd crumb_path [] root webroot)"

text \<open>
  \<open>Breadcrumb._get_crumb\<close>. \<open>os.path.relpath\<close> with one argument is relative to
  \<open>os.curdir\<close>; \<open>os.pardir\<close> is \<open>..\<close>.
\<close>

definition get_crumb ::
  "string option \<Rightarrow> filesystem \<Rightarrow> string \<Rightarrow> string \<Rightarrow> string option \<Rightarrow> string option \<Rightarrow> bool
     \<Rightarrow> string \<Rightarrow> error + string option" where
  "get_crumb wd fs path root base start is_local webroot =
     (let root = slash_trim root;
          path = slash_trim path;
          path = join root path;
          base = (case base of None \<Rightarrow> basename path | Some b \<Rightarrow> b);
          file_base = base @ ''.md'';
          crumb_path = join path file_base
      in case path_exists wd fs crumb_path of
           Inl e \<Rightarrow> Inl e
         | Inr found \<Rightarrow>
             if found
             then map_sum id Some (crumb_ref wd 0 crumb_path root start is_local webroot)
             else
               let crumb_path = join path ''index.md''
               in case path_exists wd fs crumb_path of
                    Inl e \<Rightarrow> Inl e
                  | Inr found \<Rightarrow>
                      if found
                      then map_sum id Some
                             (crumb_ref wd 0 crumb_path root start is_local webroot)
                      else
                        (case relpath wd (join path ''..'') ''.'' of
                           Inl e \<Rightarrow> Inl e
                         | Inr rel \<Rightarrow>
                             let crumb_path = join_list ''.'' [rel, file_base]
                             in case path_exists wd fs crumb_path of
                                  Inl e \<Rightarrow> Inl e
                                | Inr found \<Rightarrow>
                                    if found
                                    then map_sum id Some
                                           (crumb_ref wd 1 crumb_path root start is_local
                                              webroot)
                                    else Inr None))"

text \<open>\<open>Breadcrumb.__init__\<close> and \<open>Breadcrumb.exists\<close>.\<close>

definition Breadcrumb ::
  "string option \<Rightarrow> filesystem \<Rightarrow> string \<Rightarrow> string \<Rightarrow> string \<Rightarrow> string \<Rightarrow> string option \<Rightarrow> bool
     \<Rightarrow> string \<Rightarrow> error + breadcrumb" where
  "Breadcrumb wd fs root path text html_template start_path is_local webroot =
     (let path = slash_trim path;
          root = slash_trim root;
          base = (if path \<noteq> [] then basename path else basename root)
      in case get_crumb wd fs path root (Some base) start_path is_local webroot of
           Inl e \<Rightarrow> Inl e
         | Inr None \<Rightarrow> Inr unset_breadcrumb
         | Inr (Some crumb_path) \<Rightarrow>
             let crumb_path = slash_trim crumb_path;
                 html_file = take (length crumb_path - 3) crumb_path @ ''.html'';
                 text = (if text = [] then title (replace ''_'' '' '' base) else text)
             in case format html_template html_file text of
                  Inl e \<Rightarrow> Inl e
                | Inr h \<Rightarrow>
                    Inr \<lparr>bc_path = Some path, bc_md_file = Some crumb_path,
                         bc_html_file = Some html_file, bc_text = text, bc_html = h\<rparr>)"

definition Breadcrumb_exists :: "breadcrumb \<Rightarrow> bool" where
  "Breadcrumb_exists crumb = (length (bc_html crumb) > 0)"

section \<open>get_breadcrumbs\<close>

text \<open>
  The loop over \<open>range(len(path) + 1)\<close>, one \<open>Breadcrumb\<close> for each prefix of the
  components; an exception in a constructor ends the call.
\<close>

definition prefix_path :: "string list \<Rightarrow> nat \<Rightarrow> string" where
  "prefix_path parts i =
     (if i \<noteq> 0 then join_list (hd (take i parts)) (tl (take i parts)) else [])"

fun crumbs_loop ::
  "string option \<Rightarrow> filesystem \<Rightarrow> string \<Rightarrow> string list \<Rightarrow> string option \<Rightarrow> string \<Rightarrow> bool
     \<Rightarrow> string \<Rightarrow> nat list \<Rightarrow> error + breadcrumb list" where
  "crumbs_loop wd fs root parts start_path template is_local webroot [] = Inr []"
| "crumbs_loop wd fs root parts start_path template is_local webroot (i # rest) =
     (case Breadcrumb wd fs root (prefix_path parts i) [] template start_path is_local webroot of
        Inl e \<Rightarrow> Inl e
      | Inr crumb \<Rightarrow>
          (case crumbs_loop wd fs root parts start_path template is_local webroot rest of
             Inl e \<Rightarrow> Inl e
           | Inr crumbs \<Rightarrow> Inr (if Breadcrumb_exists crumb then crumb # crumbs else crumbs)))"

definition get_breadcrumbs ::
  "string option \<Rightarrow> filesystem \<Rightarrow> string \<Rightarrow> string \<Rightarrow> string option \<Rightarrow> string \<Rightarrow> bool
     \<Rightarrow> string \<Rightarrow> error + breadcrumb list" where
  "get_breadcrumbs wd fs root path start_path template is_local webroot =
     (let parts = split_on sep (slash_trim path)
      in if concat parts \<noteq> []
         then crumbs_loop wd fs root parts start_path template is_local webroot
                [0 ..< length parts + 1]
         else
           (case Breadcrumb wd fs root [] [] template start_path is_local webroot of
              Inl e \<Rightarrow> Inl e
            | Inr crumb \<Rightarrow> Inr [crumb]))"

text \<open>The default template \<open>BREADCRUMB\<close>.\<close>

definition BREADCRUMB :: string where
  "BREADCRUMB = [newline] @ ''<li>'' @ [newline] @ ''  <a href=\"{href}\">{text}</a>''
     @ [newline] @ ''</li>'' @ [newline]"

section \<open>DocFragment: links and images\<close>

text \<open>
  A parsed fragment is the list of its elements in document order, each with its tag
  name and its attributes in order. An attribute's value is a string, or \<open>None\<close> after
  the source has stored \<open>None\<close> in it. \<open>soup.select('a')\<close> visits the elements whose tag
  is \<open>a\<close>, in order; \<open>link.get(k)\<close> is \<open>None\<close> for a missing attribute; \<open>link[k] = v\<close>
  replaces the value in place or appends the attribute.
\<close>

datatype element = Element (tag: string) (attrs: "(string \<times> string option) list")

definition get_attr :: "element \<Rightarrow> string \<Rightarrow> string option" where
  "get_attr e k = (case map_of (attrs e) k of None \<Rightarrow> None | Some v \<Rightarrow> v)"

definition set_attr :: "element \<Rightarrow> string \<Rightarrow> string option \<Rightarrow> element" where
  "set_attr e k v = Element (tag e) (AList.update k v (attrs e))"

record docfragment =
  doc_is_local :: bool
  doc_path :: string
  doc_root :: string
  doc_webroot :: string
  soup :: "element list"

text \<open>Python's truth value of an optional string: \<open>None\<close> and \<open>''\<close> are false.\<close>

definition truthy :: "string option \<Rightarrow> bool" where
  "truthy v = (case v of None \<Rightarrow> False | Some s \<Rightarrow> s \<noteq> [])"

definition cons_result :: "'a \<Rightarrow> error + 'a list \<Rightarrow> error + 'a list" where
  "cons_result x r = (case r of Inl e \<Rightarrow> Inl e | Inr xs \<Rightarrow> Inr (x # xs))"

text \<open>
  The loop of \<open>fix_links\<close>. \<open>is_xlink\<close> is set to \<open>False\<close> before the loop and to \<open>True\<close>
  inside it, and is carried from one anchor to the next. \<open>re.match\<close> on \<open>None\<close> raises
  \<open>TypeError\<close>.
\<close>

fun fix_links_loop ::
  "string option \<Rightarrow> docfragment \<Rightarrow> bool \<Rightarrow> element list \<Rightarrow> error + element list" where
  "fix_links_loop wd d is_xlink [] = Inr []"
| "fix_links_loop wd d is_xlink (link # rest) =
     (if tag link \<noteq> ''a'' then cons_result link (fix_links_loop wd d is_xlink rest)
      else
        let href0 = get_attr link ''href'';
            href1 = (if \<not> truthy href0 then get_attr link ''xlink:href'' else href0);
            is_xlink1 = (if \<not> truthy href0 then True else is_xlink)
        in case href1 of
             None \<Rightarrow> Inl TypeError
           | Some href \<Rightarrow>
               if \<not> re_match_placeholder href then
                 (case (if \<not> doc_is_local d
                        then get_url_path wd href (doc_path d) (doc_root d) (doc_webroot d)
                        else Inr href) of
                    Inl e \<Rightarrow> Inl e
                  | Inr href2 \<Rightarrow>
                      let href3 = md_sub href2;
                          link1 = (if is_xlink1 then set_attr link ''xlink:href'' (Some href3)
                                   else set_attr link ''href'' (Some href3))
                      in cons_result link1 (fix_links_loop wd d is_xlink1 rest))
               else cons_result link (fix_links_loop wd d is_xlink1 rest))"

definition fix_links :: "string option \<Rightarrow> docfragment \<Rightarrow> error + docfragment" where
  "fix_links wd d =
     (case fix_links_loop wd d False (soup d) of
        Inl e \<Rightarrow> Inl e
      | Inr s \<Rightarrow> Inr (d\<lparr>soup := s\<rparr>))"

text \<open>
  The loop of \<open>fix_imgs\<close>. \<open>get_url_path\<close> on \<open>None\<close> raises \<open>AttributeError\<close>
  (\<open>None\<close> has no \<open>replace\<close>).
\<close>

fun fix_imgs_loop :: "string option \<Rightarrow> docfragment \<Rightarrow> element list \<Rightarrow> error + element list" where
  "fix_imgs_loop wd d [] = Inr []"
| "fix_imgs_loop wd d (img # rest) =
     (if tag img \<noteq> ''img'' then cons_result img (fix_imgs_loop wd d rest)
      else
        let src = get_attr img ''src''
        in case (if \<not> doc_is_local d
                 then (case src of
                         None \<Rightarrow> Inl AttributeError
                       | Some s \<Rightarrow>
                           map_sum id Some
                             (get_url_path wd s (doc_path d) (doc_root d) (doc_webroot d)))
                 else Inr src) of
             Inl e \<Rightarrow> Inl e
           | Inr src1 \<Rightarrow> cons_result (set_attr img ''src'' src1) (fix_imgs_loop wd d rest))"

definition fix_imgs :: "string option \<Rightarrow> docfragment \<Rightarrow> error + docfragment" where
  "fix_imgs wd d =
     (case fix_imgs_loop wd d (soup d) of
        Inl e \<Rightarrow> Inl e
      | Inr s \<Rightarrow> Inr (d\<lparr>soup := s\<rparr>))"

definition fix_html :: "string option \<Rightarrow> docfragment \<Rightarrow> error + docfragment" where
  "fix_html wd d = (case fix_links wd d of Inl e \<Rightarrow> Inl e | Inr d1 \<Rightarrow> fix_imgs wd d1)"

text \<open>
  The driver's \<open>try\<close> block for one \<open>.md\<close> or \<open>.svg\<close> file, from \<open>fix_html\<close> on: an
  exception reaches the \<open>except\<close> branch, which prints the error line; otherwise the
  fragment goes on to \<open>write_file\<close>.
\<close>

datatype outcome = Error_reported | To_write_file docfragment

definition convert_file :: "string option \<Rightarrow> docfragment \<Rightarrow> outcome" where
  "convert_file wd d =
     (case fix_html wd d of Inl e \<Rightarrow> Error_reported | Inr d1 \<Rightarrow> To_write_file d1)"

section \<open>Sites and documents used as examples\<close>

text \<open>
  Two sites in the directory \<open>/w\<close>: one with the single file \<open>page.md\<close>, one with the
  directory \<open>a\<close> that holds \<open>a.md\<close>. And a document in Local mode with an anchor that has
  only \<open>xlink:href\<close>, an anchor with \<open>href\<close>, and an image, before and after \<open>fix_links\<close>.
\<close>

definition site_page :: filesystem where
  "site_page = map_of [([''w''], Dir), ([''w'', ''page.md''], File)]"

definition site_a :: filesystem where
  "site_a = map_of [([''w''], Dir), ([''w'', ''a''], Dir), ([''w'', ''a'', ''a.md''], File)]"



section \<open>Notions used in the proofs\<close>

text \<open>
  \<open>abspath\<close> and \<open>relpath\<close> for a working directory that exists, and the location that
  a path denotes lexically from it: the names that \<open>abspath\<close> leaves.
\<close>

definition abspath_in :: "string \<Rightarrow> string \<Rightarrow> string" where
  "abspath_in cwd path = normpath (if \<not> isabs path then join cwd path else path)"

definition relpath_in :: "string \<Rightarrow> string \<Rightarrow> string \<Rightarrow> error + string" where
  "relpath_in cwd path start =
     (if path = [] then Inl ValueError
      else
        let start_list = path_list (abspath_in cwd start);
            path_list = path_list (abspath_in cwd path);
            i = length (commonprefix start_list path_list);
            rel_list = replicate (length start_list - i) ''..'' @ drop i path_list
        in if rel_list = [] then Inr ''.''
           else Inr (join_list (hd rel_list) (tl rel_list)))"

definition location :: "string \<Rightarrow> string \<Rightarrow> string list" where
  "location cwd p = path_list (abspath_in cwd p)"

text \<open>
  Components as \<open>normpath\<close> leaves them in an absolute path: non-empty, without a
  separator, and neither \<open>.\<close> nor \<open>..\<close>.
\<close>

definition plain :: "string list \<Rightarrow> bool" where
  "plain xs = (\<forall>x \<in> set xs. x \<noteq> [] \<and> sep \<notin> set x \<and> x \<noteq> ''.'' \<and> x \<noteq> ''..'')"




section \<open>Properties of the path functions\<close>

lemma normpath_nonempty: "normpath p \<noteq> []"
  by (simp add: normpath_def Let_def)

lemma abspath_nonempty: "abspath_in cwd p \<noteq> []"
  by (simp add: abspath_in_def normpath_nonempty)

lemma relpath_abspath_returns: "\<exists>u. relpath_in cwd (abspath_in cwd' p) start = Inr u"
  by (simp add: relpath_in_def Let_def abspath_nonempty)

lemma abspath_Some: "abspath (Some cwd) p = Inr (abspath_in cwd p)"
  by (simp add: abspath_def abspath_in_def getcwd_def)

lemma relpath_Some: "relpath (Some cwd) p start = relpath_in cwd p start"
  by (simp add: relpath_def relpath_in_def abspath_Some)

lemma abspath_None: "abspath None p = (if isabs p then Inr (normpath p) else Inl FileNotFoundError)"
  by (simp add: abspath_def getcwd_def)

lemma replace_char_absent:
  "a \<notin> set new \<Longrightarrow> a \<notin> set (replace [a] new s)"
  by (induction s) (auto simp: startswith_def)

text \<open>
  The last two steps of \<open>get_url_path\<close>, on any string that the path functions of any
  host may have produced before them.
\<close>

lemma url_form_any_host:
  "(let url = replace [bslash] ''/'' x;
        url = (if \<not> startswith url ''/'' then ''/'' @ url else url)
    in url \<noteq> [] \<and> hd url = sep \<and> bslash \<notin> set url)"
proof -
  have nb: "bslash \<notin> set (replace [bslash] ''/'' x)"
    by (rule replace_char_absent) simp
  show ?thesis
    using nb by (cases "replace [bslash] ''/'' x") (auto simp: Let_def startswith_def)
qed

subsection \<open>Paths as lists of components\<close>

lemma split_on_nonempty: "split_on d s \<noteq> []"
  by (induction s) (auto split: list.splits)

lemma split_on_append: "split_on d (a @ d # b) = split_on d a @ split_on d b"
proof (induction a)
  case Nil
  show ?case by simp
next
  case (Cons c a)
  then show ?case
    using split_on_nonempty [of d a]
    by (cases "split_on d a") auto
qed

lemma split_on_free: "x \<in> set (split_on d s) \<Longrightarrow> d \<notin> set x"
proof (induction s arbitrary: x)
  case Nil
  then show ?case by simp
next
  case (Cons c s)
  then show ?case
    by (cases "split_on d s") (auto split: if_splits)
qed

lemma split_on_none: "d \<notin> set s \<Longrightarrow> split_on d s = [s]"
  by (induction s) auto

lemma path_list_Nil: "path_list [] = []"
  by (simp add: path_list_def)

lemma path_list_append_sep: "path_list (a @ sep # b) = path_list a @ path_list b"
  by (simp add: path_list_def split_on_append)

lemma path_list_leading_sep: "path_list (sep # s) = path_list s"
  by (simp add: path_list_def)

lemma path_list_replicate_sep: "path_list (replicate n sep @ s) = path_list s"
  by (induction n) (simp_all add: path_list_leading_sep)

lemma path_list_single: "x \<noteq> [] \<Longrightarrow> sep \<notin> set x \<Longrightarrow> path_list x = [x]"
  by (simp add: path_list_def split_on_none)

lemma path_list_free: "x \<in> set (path_list p) \<Longrightarrow> x \<noteq> [] \<and> sep \<notin> set x"
  by (auto simp: path_list_def dest: split_on_free)

lemma endswith_sep: "endswith a ''/'' \<Longrightarrow> \<exists>a'. a = a' @ [sep]"
proof -
  assume h: "endswith a ''/''"
  have "a = take (length a - 1) a @ drop (length a - 1) a" by simp
  with h have "a = take (length a - 1) a @ [sep]" by (simp add: endswith_def)
  then show ?thesis ..
qed

lemma path_list_join: "\<not> isabs b \<Longrightarrow> path_list (join a b) = path_list a @ path_list b"
proof -
  assume rel: "\<not> isabs b"
  consider "a = []" | "a \<noteq> []" "endswith a ''/''" | "a \<noteq> []" "\<not> endswith a ''/''" by blast
  then show ?thesis
  proof cases
    case 1
    then show ?thesis using rel by (simp add: join_def isabs_def path_list_Nil)
  next
    case 2
    then obtain a' where a: "a = a' @ [sep]" using endswith_sep by blast
    have "join a b = a' @ sep # b" using rel 2 a by (simp add: join_def isabs_def)
    moreover have "path_list a = path_list a'"
      using path_list_append_sep [of a' "[]"] a by (simp add: path_list_Nil)
    ultimately show ?thesis by (simp add: path_list_append_sep)
  next
    case 3
    then have "join a b = a @ sep # b" using rel by (simp add: join_def isabs_def)
    then show ?thesis by (simp add: path_list_append_sep)
  qed
qed

lemma isabs_join: "\<not> isabs b \<Longrightarrow> isabs (join a b) = isabs a"
  by (cases a) (auto simp: join_def isabs_def startswith_def)

lemma norm_comps_append:
  "norm_comps n S (xs @ ys) = norm_comps n (norm_comps n S xs) ys"
  by (induction xs arbitrary: S) simp_all

lemma norm_comps_filter:
  "norm_comps n S (filter (\<lambda>x. x \<noteq> []) xs) = norm_comps n S xs"
  by (induction xs arbitrary: S) simp_all

lemma norm_comps_pos: "0 < n \<Longrightarrow> norm_comps n S xs = norm_comps 1 S xs"
  by (induction xs arbitrary: S) simp_all

lemma plain_butlast: "plain S \<Longrightarrow> plain (butlast S)"
  by (auto simp: plain_def dest: in_set_butlastD)

lemma norm_comps_plain:
  "plain S \<Longrightarrow> \<forall>x \<in> set xs. sep \<notin> set x \<Longrightarrow> plain (norm_comps (Suc 0) S xs)"
proof (induction xs arbitrary: S)
  case Nil
  then show ?case by simp
next
  case (Cons x xs)
  have "plain (S @ [x])" if "x \<noteq> []" "x \<noteq> ''.''" "x \<noteq> ''..''"
    using that Cons.prems by (auto simp: plain_def)
  moreover have "S \<noteq> [] \<Longrightarrow> last S \<noteq> ''..''"
    using Cons.prems(1) by (auto simp: plain_def)
  ultimately show ?case
    using Cons plain_butlast [of S] by auto
qed

lemma path_list_str_join:
  "\<forall>x \<in> set S. x \<noteq> [] \<and> sep \<notin> set x \<Longrightarrow> path_list (str_join ''/'' S) = S"
proof (induction S rule: induct_list012)
  case 1
  show ?case by (simp add: path_list_Nil)
next
  case (2 x)
  then show ?case by (simp add: path_list_single)
next
  case (3 x y zs)
  then show ?case
    using path_list_append_sep [of x "str_join ''/'' (y # zs)"]
    by (simp add: path_list_single)
qed


lemma isabs_nonempty: "isabs q \<Longrightarrow> q \<noteq> []"
  by (auto simp: isabs_def startswith_def)

lemma initial_slashes_pos: "isabs q \<Longrightarrow> 0 < initial_slashes q"
  by (simp add: initial_slashes_def isabs_def)

lemma plain_Nil: "plain []"
  by (simp add: plain_def)

lemma norm_split_plain: "plain (norm_comps (Suc 0) [] (split_on sep q))"
  by (rule norm_comps_plain [OF plain_Nil]) (auto dest: split_on_free)

lemma path_list_normpath:
  assumes "isabs q"
  shows "path_list (normpath q) = norm_comps 1 [] (path_list q)"
proof -
  let ?n = "initial_slashes q"
  let ?comps = "norm_comps ?n [] (split_on sep q)"
  have n: "0 < ?n" using assms by (rule initial_slashes_pos)
  have comps: "?comps = norm_comps 1 [] (split_on sep q)"
    using n by (rule norm_comps_pos)
  have "plain ?comps" using norm_split_plain [of q] comps by simp
  then have pl: "path_list (str_join ''/'' ?comps) = ?comps"
    by (intro path_list_str_join) (auto simp: plain_def)
  have "normpath q = replicate ?n sep @ str_join ''/'' ?comps"
    using n assms isabs_nonempty [OF assms]
    by (cases ?n) (simp_all add: normpath_def Let_def)
  then have "path_list (normpath q) = ?comps"
    using pl by (simp add: path_list_replicate_sep)
  then show ?thesis
    using comps by (simp add: path_list_def norm_comps_filter)
qed

lemma location_eq:
  assumes "isabs cwd"
  shows "location cwd p =
    (if isabs p then norm_comps 1 [] (path_list p)
     else norm_comps 1 (norm_comps 1 [] (path_list cwd)) (path_list p))"
proof (cases "isabs p")
  case True
  then show ?thesis
    by (simp add: location_def abspath_in_def path_list_normpath)
next
  case False
  then have "isabs (join cwd p)" using assms by (simp add: isabs_join)
  then have "path_list (normpath (join cwd p)) = norm_comps 1 [] (path_list (join cwd p))"
    by (rule path_list_normpath)
  then show ?thesis
    using False by (simp add: location_def abspath_in_def path_list_join norm_comps_append)
qed

lemma location_plain: "isabs cwd \<Longrightarrow> plain (location cwd p)"
proof -
  assume a: "isabs cwd"
  have f: "\<forall>x \<in> set (path_list q). sep \<notin> set x" for q
    using path_list_free by blast
  have "plain (norm_comps (Suc 0) [] (path_list q))" for q
    by (rule norm_comps_plain [OF plain_Nil f])
  moreover have "plain (norm_comps (Suc 0) (norm_comps (Suc 0) [] (path_list cwd)) (path_list q))" for q
    by (rule norm_comps_plain [OF norm_comps_plain [OF plain_Nil f] f])
  ultimately show ?thesis
    using a by (simp add: location_eq)
qed

lemma location_join:
  assumes "isabs cwd"
  shows "location cwd (join a b) =
    (if isabs b then norm_comps 1 [] (path_list b)
     else norm_comps 1 (location cwd a) (path_list b))"
proof (cases "isabs b")
  case True
  then have "join a b = b" by (simp add: join_def isabs_def)
  then show ?thesis using True assms by (simp add: location_eq)
next
  case False
  then show ?thesis
    using assms
    by (simp add: location_eq [OF assms] isabs_join path_list_join norm_comps_append)
qed

lemma norm_comps_pardirs:
  "plain S \<Longrightarrow> norm_comps (Suc 0) S (replicate k ''..'') = take (length S - k) S"
proof (induction k arbitrary: S)
  case 0
  show ?case by simp
next
  case (Suc k)
  have last: "S \<noteq> [] \<Longrightarrow> last S \<noteq> ''..''"
    using Suc.prems by (auto simp: plain_def)
  show ?case
  proof (cases "S = []")
    case True
    then show ?thesis using Suc.IH [of "[]"] by (simp add: plain_Nil)
  next
    case False
    then show ?thesis
      using Suc.IH [OF plain_butlast [OF Suc.prems]] last
      by (simp add: butlast_conv_take take_take min_def)
  qed
qed

lemma norm_comps_plain_append:
  "plain Q \<Longrightarrow> norm_comps (Suc 0) S Q = S @ Q"
  by (induction Q arbitrary: S) (auto simp: plain_def)

lemma commonprefix_take:
  "commonprefix S P = take (length (commonprefix S P)) S
   \<and> commonprefix S P = take (length (commonprefix S P)) P"
  by (induction S P rule: commonprefix.induct) auto

lemma commonprefix_length: "length (commonprefix S P) \<le> length S \<and> length (commonprefix S P) \<le> length P"
  by (induction S P rule: commonprefix.induct) auto

lemma plain_drop: "plain P \<Longrightarrow> plain (drop i P)"
  by (auto simp: plain_def dest: in_set_dropD)

lemma norm_comps_rel_list:
  assumes "plain S" "plain P" "i = length (commonprefix S P)"
  shows "norm_comps (Suc 0) S (replicate (length S - i) ''..'' @ drop i P) = P"
proof -
  have le: "i \<le> length S" using assms(3) commonprefix_length by blast
  have tk: "take i S = take i P" using assms(3) commonprefix_take [of S P] by metis
  have "norm_comps (Suc 0) S (replicate (length S - i) ''..'') = take i S"
    using norm_comps_pardirs [OF assms(1), of "length S - i"] le by simp
  then have "norm_comps (Suc 0) S (replicate (length S - i) ''..'' @ drop i P) = take i S @ drop i P"
    by (simp add: norm_comps_append norm_comps_plain_append [OF plain_drop [OF assms(2)]])
  then show ?thesis using tk by simp
qed

lemma not_isabs_free: "x \<noteq> [] \<Longrightarrow> sep \<notin> set x \<Longrightarrow> \<not> isabs x"
  by (cases x) (auto simp: isabs_def startswith_def)

lemma join_list_comps:
  "\<forall>x \<in> set (a # xs). x \<noteq> [] \<and> sep \<notin> set x \<Longrightarrow>
     path_list (join_list a xs) = a # xs \<and> \<not> isabs (join_list a xs)"
proof (induction xs rule: rev_induct)
  case Nil
  then show ?case by (simp add: join_list_def path_list_single not_isabs_free)
next
  case (snoc x xs)
  then have x: "\<not> isabs x" "path_list x = [x]"
    by (simp_all add: not_isabs_free path_list_single)
  have "join_list a (xs @ [x]) = join (join_list a xs) x"
    by (simp add: join_list_def)
  then show ?case
    using snoc x by (simp add: path_list_join isabs_join)
qed

lemma relpath_eq:
  "p \<noteq> [] \<Longrightarrow> relpath_in cwd p start =
     (if replicate (length (location cwd start)
            - length (commonprefix (location cwd start) (location cwd p))) ''..''
          @ drop (length (commonprefix (location cwd start) (location cwd p))) (location cwd p) = []
      then Inr ''.''
      else Inr (join_list
        (hd (replicate (length (location cwd start)
            - length (commonprefix (location cwd start) (location cwd p))) ''..''
          @ drop (length (commonprefix (location cwd start) (location cwd p))) (location cwd p)))
        (tl (replicate (length (location cwd start)
            - length (commonprefix (location cwd start) (location cwd p))) ''..''
          @ drop (length (commonprefix (location cwd start) (location cwd p))) (location cwd p)))))"
  unfolding relpath_in_def location_def Let_def by (rule if_not_P)

lemma relpath_Inr_nonempty: "relpath_in cwd p start = Inr r \<Longrightarrow> p \<noteq> []"
proof
  assume "relpath_in cwd p start = Inr r" and "p = []"
  then have "Inl ValueError = (Inr r :: error + string)"
    by (simp only: relpath_in_def if_True simp_thms)
  then show False by simp
qed

lemma relpath_location:
  assumes cwd: "isabs cwd" and r: "relpath_in cwd p start = Inr r"
  shows "\<not> isabs r \<and> r \<noteq> []
         \<and> norm_comps 1 (location cwd start) (path_list r) = location cwd p"
proof -
  define S where "S = location cwd start"
  define P where "P = location cwd p"
  define rel where
    "rel = replicate (length S - length (commonprefix S P)) ''..''
             @ drop (length (commonprefix S P)) P"
  have pS: "plain S" and pP: "plain P"
    using cwd by (simp_all add: S_def P_def location_plain)
  have norm: "norm_comps (Suc 0) S rel = P"
    unfolding rel_def by (rule norm_comps_rel_list [OF pS pP refl])
  have p: "p \<noteq> []" using r by (rule relpath_Inr_nonempty)
  have e: "relpath_in cwd p start =
      (if rel = [] then Inr ''.'' else Inr (join_list (hd rel) (tl rel)))"
    unfolding rel_def S_def P_def by (rule relpath_eq [OF p])
  show ?thesis
  proof (cases "rel = []")
    case True
    then have "r = ''.''" using r e by simp
    moreover have "norm_comps (Suc 0) S [] = P" using norm True by simp
    ultimately show ?thesis
      by (simp add: isabs_def startswith_def path_list_def S_def P_def)
  next
    case False
    then have r': "r = join_list (hd rel) (tl rel)" using r e by simp
    have "\<forall>x \<in> set rel. x \<noteq> [] \<and> sep \<notin> set x"
    proof
      fix x
      assume "x \<in> set rel"
      then have "x = ''..'' \<or> x \<in> set P"
        unfolding rel_def by (auto dest: in_set_dropD)
      then show "x \<noteq> [] \<and> sep \<notin> set x"
      proof
        assume "x = ''..''"
        then show ?thesis by simp
      next
        assume "x \<in> set P"
        with pP show ?thesis by (simp add: plain_def)
      qed
    qed
    then have "\<forall>x \<in> set (hd rel # tl rel). x \<noteq> [] \<and> sep \<notin> set x"
      using False by simp
    then have "path_list r = hd rel # tl rel \<and> \<not> isabs r"
      unfolding r' by (rule join_list_comps)
    then have pr: "path_list r = rel" and nr: "\<not> isabs r" using False by simp_all
    have "r \<noteq> []"
    proof
      assume "r = []"
      then have "path_list r = []" by (simp add: path_list_Nil)
      then show False using pr False by simp
    qed
    then show ?thesis using norm pr nr by (simp add: S_def P_def)
  qed
qed

lemma relpath_roundtrip:
  assumes "isabs cwd" "relpath_in cwd p start = Inr r" "location cwd a = location cwd start"
  shows "location cwd (join a r) = location cwd p"
  using relpath_location [OF assms(1,2)] assms(3)
  by (simp add: location_join [OF assms(1)])

lemma relpath_cong:
  "location cwd p = location cwd p' \<Longrightarrow> location cwd s = location cwd s' \<Longrightarrow>
   p \<noteq> [] \<Longrightarrow> p' \<noteq> [] \<Longrightarrow> relpath_in cwd p s = relpath_in cwd p' s'"
  by (simp add: relpath_in_def location_def Let_def)

lemma location_curdir: "isabs cwd \<Longrightarrow> location cwd ''.'' = norm_comps 1 [] (path_list cwd)"
  by (simp add: location_eq isabs_def startswith_def path_list_def)

lemma relpath_stable_from_start:
  assumes "isabs cwd" and "relpath_in cwd x start = Inr r"
  shows "relpath_in cwd (join start r) start = Inr r
         \<and> (location cwd start = location cwd ''.'' \<longrightarrow> relpath_in cwd r start = Inr r)"
proof -
  have rl: "\<not> isabs r" "r \<noteq> []"
      "norm_comps 1 (location cwd start) (path_list r) = location cwd x"
    using relpath_location [OF assms] by simp_all
  have x: "x \<noteq> []" using assms(2) by (rule relpath_Inr_nonempty)
  have "location cwd (join start r) = location cwd x"
    by (rule relpath_roundtrip [OF assms refl])
  moreover have "join start r \<noteq> []" using rl(2) by (simp add: join_def)
  ultimately have 1: "relpath_in cwd (join start r) start = Inr r"
    using relpath_cong [of cwd "join start r" x start start] x assms(2) by simp
  have 2: "relpath_in cwd r start = Inr r" if "location cwd start = location cwd ''.''"
  proof -
    have "location cwd r = norm_comps 1 (norm_comps 1 [] (path_list cwd)) (path_list r)"
      using rl(1) assms(1) by (simp add: location_eq)
    then have "location cwd r = norm_comps 1 (location cwd ''.'') (path_list r)"
      using location_curdir [OF assms(1)] by simp
    then have "location cwd r = location cwd x" using that rl(3) by simp
    then show ?thesis
      using relpath_cong [of cwd r x start start] x rl(2) assms(2) by simp
  qed
  show ?thesis using 1 2 by blast
qed

section \<open>The lookups return\<close>

lemma join_nonempty: "b \<noteq> [] \<Longrightarrow> join a b \<noteq> []"
  by (simp add: join_def)

lemma isabs_normpath: "isabs p \<Longrightarrow> isabs (normpath p)"
proof -
  assume a: "isabs p"
  have n: "0 < initial_slashes p" using a by (rule initial_slashes_pos)
  have "p \<noteq> []" using a by (rule isabs_nonempty)
  then have "normpath p = replicate (initial_slashes p) sep
      @ str_join ''/'' (norm_comps (initial_slashes p) [] (split_on sep p))"
    using n by (cases "initial_slashes p") (simp_all add: normpath_def Let_def)
  then show ?thesis
    using n by (cases "initial_slashes p") (simp_all add: isabs_def startswith_def)
qed

lemma get_url_path_Some:
  "get_url_path (Some cwd) link path root webroot =
     (case relpath_in cwd (abspath_in cwd (join path (replace ''file:///'' [] link)))
             (abspath_in cwd root) of
        Inl e \<Rightarrow> Inl e
      | Inr url \<Rightarrow>
          Inr (let url = replace [bslash] ''/'' (join webroot url)
               in if \<not> startswith url ''/'' then ''/'' @ url else url))"
  by (simp add: get_url_path_def get_url_path_on_def posixpath_def abspath_Some relpath_Some
      Let_def split: sum.splits del: replace.simps)

lemma get_url_path_returns:
  "\<exists>url. get_url_path (Some cwd) link path root webroot = Inr url"
proof -
  obtain u where "relpath_in cwd (abspath_in cwd (join path (replace ''file:///'' [] link)))
      (abspath_in cwd root) = Inr u"
    using relpath_abspath_returns by blast
  then show ?thesis
    by (simp add: get_url_path_Some del: replace.simps)
qed

lemma relpath_returns: "p \<noteq> [] \<Longrightarrow> \<exists>r. relpath (Some cwd) p start = Inr r"
  by (simp add: relpath_Some relpath_in_def Let_def)

lemma crumb_ref_returns:
  "crumb_path \<noteq> [] \<Longrightarrow>
     \<exists>r. crumb_ref (Some cwd) k crumb_path root start is_local webroot = Inr r"
  using get_url_path_returns [of cwd crumb_path "[]" root webroot]
    relpath_returns [of crumb_path cwd]
  by (auto simp: crumb_ref_def split: option.splits)

lemma path_exists_Some: "\<exists>b. path_exists (Some cwd) fs p = Inr b"
  by (auto simp: path_exists_def)

lemma get_crumb_unfold:
  assumes "D = join (slash_trim root) (slash_trim path)"
    and "fb = (case base of None \<Rightarrow> basename D | Some b \<Rightarrow> b) @ ''.md''"
  shows "get_crumb wd fs path root base start is_local webroot =
     (case path_exists wd fs (join D fb) of
        Inl e \<Rightarrow> Inl e
      | Inr f1 \<Rightarrow>
          if f1
          then map_sum id Some (crumb_ref wd 0 (join D fb) (slash_trim root) start is_local webroot)
          else
            (case path_exists wd fs (join D ''index.md'') of
               Inl e \<Rightarrow> Inl e
             | Inr f2 \<Rightarrow>
                 if f2
                 then map_sum id Some
                        (crumb_ref wd 0 (join D ''index.md'') (slash_trim root) start is_local
                           webroot)
                 else
                   (case relpath wd (join D ''..'') ''.'' of
                      Inl e \<Rightarrow> Inl e
                    | Inr rel \<Rightarrow>
                        (case path_exists wd fs (join_list ''.'' [rel, fb]) of
                           Inl e \<Rightarrow> Inl e
                         | Inr f3 \<Rightarrow>
                             if f3
                             then map_sum id Some
                                    (crumb_ref wd 1 (join_list ''.'' [rel, fb]) (slash_trim root)
                                       start is_local webroot)
                             else Inr None))))"
  unfolding assms by (simp add: get_crumb_def Let_def split: sum.splits)

lemma get_crumb_returns:
  "\<exists>r. get_crumb (Some cwd) fs path root base start is_local webroot = Inr r"
proof -
  let ?root = "slash_trim root"
  let ?path = "join ?root (slash_trim path)"
  let ?fb = "(case base of None \<Rightarrow> basename ?path | Some b \<Rightarrow> b) @ ''.md''"
  have fb: "?fb \<noteq> []" by simp
  obtain rel where rel: "relpath (Some cwd) (join ?path ''..'') ''.'' = Inr rel"
    using relpath_returns [OF join_nonempty, of "''..''" cwd ?path "''.''"] by auto
  obtain f1 where f1: "path_exists (Some cwd) fs (join ?path ?fb) = Inr f1"
    using path_exists_Some by blast
  obtain f2 where f2: "path_exists (Some cwd) fs (join ?path ''index.md'') = Inr f2"
    using path_exists_Some by blast
  obtain f3 where f3: "path_exists (Some cwd) fs (join_list ''.'' [rel, ?fb]) = Inr f3"
    using path_exists_Some by blast
  obtain r1 where c1: "crumb_ref (Some cwd) 0 (join ?path ?fb) ?root start is_local webroot = Inr r1"
    using crumb_ref_returns [OF join_nonempty [OF fb]] by blast
  have ne2: "join ?path ''index.md'' \<noteq> []" by (simp add: join_nonempty)
  obtain r2 where c2: "crumb_ref (Some cwd) 0 (join ?path ''index.md'') ?root start is_local webroot
      = Inr r2"
    using crumb_ref_returns [OF ne2] by blast
  have ne3: "join_list ''.'' [rel, ?fb] \<noteq> []" by (simp add: join_list_def join_nonempty)
  obtain r3 where c3: "crumb_ref (Some cwd) 1 (join_list ''.'' [rel, ?fb]) ?root start is_local
      webroot = Inr r3"
    using crumb_ref_returns [OF ne3] by blast
  show ?thesis
    unfolding get_crumb_unfold [OF refl refl]
    using f1 f2 f3 rel c1 c2 c3 by simp
qed

lemma Breadcrumb_empty_template:
  "\<exists>c. Breadcrumb (Some cwd) fs root path text [] start is_local webroot = Inr c
       \<and> bc_html c = []"
proof -
  obtain r where "get_crumb (Some cwd) fs (slash_trim path) (slash_trim root)
      (Some (if slash_trim path \<noteq> [] then basename (slash_trim path) else basename (slash_trim root)))
      start is_local webroot = Inr r"
    using get_crumb_returns by blast
  then show ?thesis
    by (cases r) (simp_all add: Breadcrumb_def Let_def unset_breadcrumb_def)
qed

lemma crumbs_loop_empty_template:
  "crumbs_loop (Some cwd) fs root parts start [] is_local webroot levels = Inr []"
proof (induction levels)
  case Nil
  show ?case by simp
next
  case (Cons i rest)
  obtain c where c: "Breadcrumb (Some cwd) fs root (prefix_path parts i) [] [] start is_local
      webroot = Inr c"
      and h: "bc_html c = []"
    using Breadcrumb_empty_template by blast
  show ?case using Cons c h by (simp add: Breadcrumb_exists_def)
qed

section \<open>Properties of the index lookup\<close>

lemma root_level_no_index:
  "get_crumb (Some ''/w'') site_page [] ''.'' (Some ''.'') (Some ''./'') True [] = Inr None"
proof -
  have D: "''./'' = join (slash_trim ''.'') (slash_trim [])" by code_simp
  have fb: "''..md'' = (case Some ''.'' of None \<Rightarrow> basename ''./'' | Some b \<Rightarrow> b) @ ''.md''"
    by simp
  have e1: "path_exists (Some ''/w'') site_page (join ''./'' ''..md'') = Inr False" by code_simp
  have e2: "path_exists (Some ''/w'') site_page (join ''./'' ''index.md'') = Inr False"
    by code_simp
  have rel: "relpath (Some ''/w'') (join ''./'' ''..'') ''.'' = Inr ''..''" by code_simp
  have e3: "path_exists (Some ''/w'') site_page (join_list ''.'' [''..'', ''..md'']) = Inr False"
    by code_simp
  show ?thesis
    unfolding get_crumb_unfold [OF D fb] using e1 e2 rel e3 by simp
qed

lemma crumbs_loop_filter:
  "\<forall>i \<in> set levels.
      Breadcrumb wd fs root (prefix_path parts i) [] template start is_local webroot = Inr (c i) \<Longrightarrow>
   crumbs_loop wd fs root parts start template is_local webroot levels
     = Inr (filter Breadcrumb_exists (map c levels))"
  by (induction levels) simp_all

lemma Breadcrumb_html_resolved:
  assumes "Breadcrumb wd fs root path txt template start is_local webroot = Inr b"
    and "bc_html b \<noteq> []"
  shows "bc_md_file b \<noteq> None"
proof (cases "get_crumb wd fs (slash_trim path) (slash_trim root)
      (Some (if slash_trim path \<noteq> [] then basename (slash_trim path) else basename (slash_trim root)))
      start is_local webroot")
  case (Inl e)
  then show ?thesis using assms(1) by (simp add: Breadcrumb_def Let_def)
next
  case (Inr r)
  show ?thesis
  proof (cases r)
    case None
    then have "b = unset_breadcrumb" using assms(1) Inr by (simp add: Breadcrumb_def Let_def)
    then show ?thesis using assms(2) by (simp add: unset_breadcrumb_def)
  next
    case (Some cp)
    then show ?thesis
      using assms(1) Inr by (auto simp: Breadcrumb_def Let_def split: sum.splits)
  qed
qed

lemma level_a_same_name:
  "get_crumb (Some ''/w'') site_a ''a'' ''.'' (Some ''a'') (Some ''./a'') True []
     = Inr (Some ''a.md'')"
proof -
  have D: "''./a'' = join (slash_trim ''.'') (slash_trim ''a'')" by code_simp
  have fb: "''a.md'' = (case Some ''a'' of None \<Rightarrow> basename ''./a'' | Some b \<Rightarrow> b) @ ''.md''"
    by simp
  have e1: "path_exists (Some ''/w'') site_a (join ''./a'' ''a.md'') = Inr True" by code_simp
  have r1: "crumb_ref (Some ''/w'') 0 (join ''./a'' ''a.md'') (slash_trim ''.'') (Some ''./a'')
      True [] = Inr ''a.md''" by code_simp
  show ?thesis
    unfolding get_crumb_unfold [OF D fb] using e1 r1 by simp
qed

lemma level_root_none:
  "get_crumb (Some ''/w'') site_a [] ''.'' (Some ''.'') (Some ''./a'') True [] = Inr None"
proof -
  have D: "''./'' = join (slash_trim ''.'') (slash_trim [])" by code_simp
  have fb: "''..md'' = (case Some ''.'' of None \<Rightarrow> basename ''./'' | Some b \<Rightarrow> b) @ ''.md''"
    by simp
  have e1: "path_exists (Some ''/w'') site_a (join ''./'' ''..md'') = Inr False" by code_simp
  have e2: "path_exists (Some ''/w'') site_a (join ''./'' ''index.md'') = Inr False" by code_simp
  have rel: "relpath (Some ''/w'') (join ''./'' ''..'') ''.'' = Inr ''..''" by code_simp
  have e3: "path_exists (Some ''/w'') site_a (join_list ''.'' [''..'', ''..md'']) = Inr False"
    by code_simp
  show ?thesis
    unfolding get_crumb_unfold [OF D fb] using e1 e2 rel e3 by simp
qed

lemma Breadcrumb_resolved:
  assumes "p = slash_trim path" and "r = slash_trim root"
    and "base = (if p \<noteq> [] then basename p else basename r)"
    and "get_crumb wd fs p r (Some base) start is_local webroot = Inr (Some found)"
    and "cp = slash_trim found"
    and "hf = take (length cp - 3) cp @ ''.html''"
    and "tx = (if txt = [] then title (replace ''_'' '' '' base) else txt)"
    and "format template hf tx = Inr h"
  shows "Breadcrumb wd fs root path txt template start is_local webroot
     = Inr \<lparr>bc_path = Some p, bc_md_file = Some cp, bc_html_file = Some hf,
             bc_text = tx, bc_html = h\<rparr>"
  using assms(4,8) unfolding assms(1,2,3,5,6,7)
  by (simp add: Breadcrumb_def Let_def del: format.simps replace.simps)

lemma Breadcrumb_unresolved:
  assumes "p = slash_trim path" and "r = slash_trim root"
    and "base = (if p \<noteq> [] then basename p else basename r)"
    and "get_crumb wd fs p r (Some base) start is_local webroot = Inr None"
  shows "Breadcrumb wd fs root path txt template start is_local webroot = Inr unset_breadcrumb"
  using assms(4) unfolding assms(1,2,3)
  by (simp add: Breadcrumb_def Let_def)

lemma get_breadcrumbs_empty_template:
  "concat (split_on sep (slash_trim path)) \<noteq> [] \<Longrightarrow>
     get_breadcrumbs (Some cwd) fs root path start [] is_local webroot = Inr []"
  by (simp add: get_breadcrumbs_def Let_def crumbs_loop_empty_template)

lemma level_a_crumb:
  "format template ''a.html'' ''A'' = Inr h \<Longrightarrow>
   Breadcrumb (Some ''/w'') site_a ''./'' ''a'' [] template (Some ''./a'') True []
     = Inr \<lparr>bc_path = Some ''a'', bc_md_file = Some ''a.md'', bc_html_file = Some ''a.html'',
             bc_text = ''A'', bc_html = h\<rparr>"
proof (rule Breadcrumb_resolved [where r = "''.''" and base = "''a''" and found = "''a.md''"])
  show "''a'' = slash_trim ''a''" by code_simp
  show "''.'' = slash_trim ''./''" by code_simp
  show "''a'' = (if ''a'' \<noteq> [] then basename ''a'' else basename ''.'')" by code_simp
  show "get_crumb (Some ''/w'') site_a ''a'' ''.'' (Some ''a'') (Some ''./a'') True []
      = Inr (Some ''a.md'')" by (rule level_a_same_name)
  show "''a.md'' = slash_trim ''a.md''" by code_simp
  show "''a.html'' = take (length ''a.md'' - 3) ''a.md'' @ ''.html''" by code_simp
  show "''A'' = (if [] = [] then title (replace ''_'' '' '' ''a'') else [])" by code_simp
qed

lemma level_root_crumb:
  "Breadcrumb (Some ''/w'') site_a ''./'' [] [] template (Some ''./a'') True []
     = Inr unset_breadcrumb"
proof (rule Breadcrumb_unresolved [where p = "[]" and r = "''.''" and base = "''.''"])
  show "[] = slash_trim []" by code_simp
  show "''.'' = slash_trim ''./''" by code_simp
  show "''.'' = (if [] \<noteq> [] then basename [] else basename ''.'')" by code_simp
  show "get_crumb (Some ''/w'') site_a [] ''.'' (Some ''.'') (Some ''./a'') True []
      = Inr None" by (rule level_root_none)
qed

lemma crumb_ref_local_start:
  "start \<noteq> [] \<Longrightarrow>
     crumb_ref (Some cwd) k x root (Some start) True webroot = relpath_in cwd x start"
  by (simp add: crumb_ref_def relpath_Some)

section \<open>Properties of the link rewriting\<close>





lemma cons_result_Inl: "cons_result x r = Inl e \<longleftrightarrow> r = Inl e"
  by (cases r) (simp_all add: cons_result_def)


lemma get_url_path_not_Inl: "get_url_path (Some cwd) link path root webroot \<noteq> Inl e"
  using get_url_path_returns [of cwd link path root webroot] by auto

lemma fix_links_loop_error:
  "fix_links_loop (Some cwd) d x es = Inl e \<Longrightarrow> e = TypeError"
proof (induction es arbitrary: x)
  case Nil
  then show ?case by simp
next
  case (Cons a es)
  show ?case
    using Cons.prems Cons.IH
    by (auto simp: Let_def cons_result_Inl get_url_path_not_Inl
        split: if_splits option.splits sum.splits)
qed

lemma fix_links_loop_absent:
  assumes "link \<in> set es" "tag link = ''a''"
    "map_of (attrs link) ''href'' = None" "map_of (attrs link) ''xlink:href'' = None"
  shows "\<exists>e. fix_links_loop wd d x es = Inl e"
  using assms(1)
proof (induction es arbitrary: x)
  case Nil
  then show ?case by simp
next
  case (Cons a es)
  show ?case
  proof (cases "a = link")
    case True
    then show ?thesis
      using assms(2-4) by (simp add: get_attr_def truthy_def)
  next
    case False
    then have "link \<in> set es" using Cons.prems by simp
    then have ih: "\<exists>e. fix_links_loop wd d y es = Inl e" for y
      by (rule Cons.IH)
    have c: "\<exists>e. cons_result z (fix_links_loop wd d y es) = Inl e" for y z
      using ih [of y] by (auto simp: cons_result_def)
    show ?thesis
      using c by (auto simp: Let_def split: option.splits sum.splits)
  qed
qed






text \<open>\<open>get_url_path\<close> on any host: the form of what it returns, and what it raises.\<close>

lemma get_url_path_on_form:
  "get_url_path_on h link path root webroot = Inr url \<Longrightarrow>
     url \<noteq> [] \<and> hd url = sep \<and> bslash \<notin> set url"
proof -
  assume a: "get_url_path_on h link path root webroot = Inr url"
  then obtain x where "url = (let u = replace [bslash] ''/'' x
      in if \<not> startswith u ''/'' then ''/'' @ u else u)"
    by (auto simp: get_url_path_on_def Let_def split: sum.splits simp del: replace.simps)
  then show ?thesis
    using url_form_any_host [of x] by (simp add: Let_def del: replace.simps)
qed

section \<open>Claims about the index lookup and the breadcrumbs\<close>

text \<open>
  Claim C1. \<open>_get_crumb\<close> passes \<open>root\<close> through \<open>slash_trim\<close>, which also takes the
  leading separator of an absolute root away, and forms its three candidates from
  what is left: for an absolute root they are looked up from the working directory
  instead, and an index document that exists is not found. The site is \<open>/w\<close> with the
  directory \<open>a\<close> holding \<open>a.md\<close>, and the program runs in \<open>/w\<close>. For the root given as
  \<open>/w/\<close> the lookup for \<open>a\<close> is among \<open>w/a/a.md\<close>, \<open>w/a/index.md\<close> and \<open>./w/a.md\<close>, none of
  which exists, the crumb of \<open>a\<close> is unset although \<open>/w/a/a.md\<close> exists, and
  \<open>get_breadcrumbs\<close> returns no crumb for \<open>a\<close>. For the same site given as \<open>./\<close> the file
  is found.
\<close>

theorem absolute_root_lookup_misses:
  "path_exists (Some ''/w'') site_a ''/w/a/a.md'' = Inr True
   \<and> join (slash_trim ''/w/'') (slash_trim ''a'') = ''w/a''
   \<and> get_crumb (Some ''/w'') site_a ''a'' ''/w/'' None (Some ''/w/a'') True [] = Inr None
   \<and> Breadcrumb (Some ''/w'') site_a ''/w/'' ''a'' [] BREADCRUMB (Some ''/w/a'') True []
       = Inr unset_breadcrumb
   \<and> get_breadcrumbs (Some ''/w'') site_a ''/w/'' ''a'' (Some ''/w/a'') BREADCRUMB True []
       = Inr []
   \<and> get_crumb (Some ''/w'') site_a ''a'' ''./'' None (Some ''./a'') True []
       = Inr (Some ''a.md'')"
proof -
  have x: "path_exists (Some ''/w'') site_a ''/w/a/a.md'' = Inr True" by code_simp
  have D: "''w/a'' = join (slash_trim ''/w/'') (slash_trim ''a'')" by code_simp
  have fb: "''a.md'' = (case None of None \<Rightarrow> basename ''w/a'' | Some b \<Rightarrow> b) @ ''.md''"
    by code_simp
  have e1: "path_exists (Some ''/w'') site_a (join ''w/a'' ''a.md'') = Inr False" by code_simp
  have e2: "path_exists (Some ''/w'') site_a (join ''w/a'' ''index.md'') = Inr False"
    by code_simp
  have rel: "relpath (Some ''/w'') (join ''w/a'' ''..'') ''.'' = Inr ''w''" by code_simp
  have e3: "path_exists (Some ''/w'') site_a (join_list ''.'' [''w'', ''a.md'']) = Inr False"
    by code_simp
  have g: "get_crumb (Some ''/w'') site_a ''a'' ''/w/'' None (Some ''/w/a'') True [] = Inr None"
    unfolding get_crumb_unfold [OF D fb] using e1 e2 rel e3 by simp
  have D': "''w/a'' = join (slash_trim ''w'') (slash_trim ''a'')" by code_simp
  have fb': "''a.md'' = (case Some ''a'' of None \<Rightarrow> basename ''w/a'' | Some b \<Rightarrow> b) @ ''.md''"
    by simp
  have g': "get_crumb (Some ''/w'') site_a ''a'' ''w'' (Some ''a'') (Some ''/w/a'') True []
      = Inr None"
    unfolding get_crumb_unfold [OF D' fb'] using e1 e2 rel e3 by simp
  have B: "Breadcrumb (Some ''/w'') site_a ''/w/'' ''a'' [] BREADCRUMB (Some ''/w/a'') True []
       = Inr unset_breadcrumb"
  proof (rule Breadcrumb_unresolved [where p = "''a''" and r = "''w''" and base = "''a''"])
    show "''a'' = slash_trim ''a''" by code_simp
    show "''w'' = slash_trim ''/w/''" by code_simp
    show "''a'' = (if ''a'' \<noteq> [] then basename ''a'' else basename ''w'')" by code_simp
    show "get_crumb (Some ''/w'') site_a ''a'' ''w'' (Some ''a'') (Some ''/w/a'') True []
      = Inr None" by (rule g')
  qed
  have D0: "''w/'' = join (slash_trim ''w'') (slash_trim [])" by code_simp
  have fb0: "''w.md'' = (case Some ''w'' of None \<Rightarrow> basename ''w/'' | Some b \<Rightarrow> b) @ ''.md''"
    by simp
  have e10: "path_exists (Some ''/w'') site_a (join ''w/'' ''w.md'') = Inr False" by code_simp
  have e20: "path_exists (Some ''/w'') site_a (join ''w/'' ''index.md'') = Inr False"
    by code_simp
  have rel0: "relpath (Some ''/w'') (join ''w/'' ''..'') ''.'' = Inr ''.''" by code_simp
  have e30: "path_exists (Some ''/w'') site_a (join_list ''.'' [''.'', ''w.md'']) = Inr False"
    by code_simp
  have g0: "get_crumb (Some ''/w'') site_a [] ''w'' (Some ''w'') (Some ''/w/a'') True []
      = Inr None"
    unfolding get_crumb_unfold [OF D0 fb0] using e10 e20 rel0 e30 by simp
  have B0: "Breadcrumb (Some ''/w'') site_a ''/w/'' [] [] BREADCRUMB (Some ''/w/a'') True []
       = Inr unset_breadcrumb"
  proof (rule Breadcrumb_unresolved [where p = "[]" and r = "''w''" and base = "''w''"])
    show "[] = slash_trim []" by code_simp
    show "''w'' = slash_trim ''/w/''" by code_simp
    show "''w'' = (if [] \<noteq> [] then basename [] else basename ''w'')" by code_simp
    show "get_crumb (Some ''/w'') site_a [] ''w'' (Some ''w'') (Some ''/w/a'') True []
      = Inr None" by (rule g0)
  qed
  have parts: "split_on sep (slash_trim ''a'') = [''a'']" by code_simp
  have p0: "prefix_path [''a''] 0 = []" and p1: "prefix_path [''a''] (Suc 0) = ''a''"
    by (simp_all add: prefix_path_def join_list_def)
  have "[0 ..< length [''a''] + 1] = [0, Suc 0]" by (simp add: upt_rec)
  then have G: "get_breadcrumbs (Some ''/w'') site_a ''/w/'' ''a'' (Some ''/w/a'') BREADCRUMB True []
       = Inr []"
    by (simp add: get_breadcrumbs_def Let_def parts p0 p1 B0 B Breadcrumb_exists_def
        unset_breadcrumb_def)
  have D2: "''./a'' = join (slash_trim ''./'') (slash_trim ''a'')" by code_simp
  have fb2: "''a.md'' = (case None of None \<Rightarrow> basename ''./a'' | Some b \<Rightarrow> b) @ ''.md''"
    by code_simp
  have f1: "path_exists (Some ''/w'') site_a (join ''./a'' ''a.md'') = Inr True" by code_simp
  have r1: "crumb_ref (Some ''/w'') 0 (join ''./a'' ''a.md'') (slash_trim ''./'') (Some ''./a'')
      True [] = Inr ''a.md''" by code_simp
  have g2: "get_crumb (Some ''/w'') site_a ''a'' ''./'' None (Some ''./a'') True []
       = Inr (Some ''a.md'')"
    unfolding get_crumb_unfold [OF D2 fb2] using f1 r1 by simp
  show ?thesis using x D g B G g2 by simp
qed

text \<open>
  Claim C4. For the root itself as target (the empty relative path) \<open>get_breadcrumbs\<close>
  builds one \<open>Breadcrumb\<close> and returns it without asking \<open>exists()\<close>: with no index
  document for the root the returned sequence holds a crumb whose \<open>md_file\<close> is \<open>None\<close>.
  The site here is \<open>/w\<close> with the single file \<open>page.md\<close>.
\<close>

theorem root_crumb_included_unresolved:
  "get_breadcrumbs (Some ''/w'') site_page ''./'' [] (Some ''./'') BREADCRUMB True []
     = Inr [unset_breadcrumb]
   \<and> bc_md_file unset_breadcrumb = None \<and> \<not> Breadcrumb_exists unset_breadcrumb"
proof -
  have t: "slash_trim [] = []" "slash_trim ''./'' = ''.''" "basename ''.'' = ''.''"
    by code_simp+
  have B: "Breadcrumb (Some ''/w'') site_page ''./'' [] [] BREADCRUMB (Some ''./'') True []
      = Inr unset_breadcrumb"
    by (simp add: Breadcrumb_def Let_def t root_level_no_index)
  have p: "split_on sep (slash_trim []) = [[]]" by code_simp
  show ?thesis
    by (simp add: get_breadcrumbs_def Let_def p B unset_breadcrumb_def Breadcrumb_exists_def)
qed

text \<open>
  Claim C5 as stated fails for the empty template: the index of level \<open>a\<close> resolves,
  yet the sequence returned for the target \<open>a\<close> is empty.
\<close>

theorem empty_template_hides_resolved_level:
  "get_crumb (Some ''/w'') site_a ''a'' ''.'' (Some ''a'') (Some ''./a'') True []
     = Inr (Some ''a.md'')
   \<and> get_breadcrumbs (Some ''/w'') site_a ''./'' ''a'' (Some ''./a'') [] True [] = Inr []"
proof -
  have "concat (split_on sep (slash_trim ''a'')) \<noteq> []" by code_simp
  then have "get_breadcrumbs (Some ''/w'') site_a ''./'' ''a'' (Some ''./a'') [] True [] = Inr []"
    by (rule get_breadcrumbs_empty_template)
  then show ?thesis using level_a_same_name by simp
qed

text \<open>
  Claim C5, as amended. For a target other than the root, \<open>get_breadcrumbs\<close> builds a
  \<open>Breadcrumb\<close> for every prefix of the path, from the root (\<open>i = 0\<close>) to the full
  path, and when each constructor returns, the result is, in order, the crumbs of the
  levels whose index resolved and whose rendered \<open>html\<close> is not empty. A level without
  an index contributes nothing and does not stop the levels below it.
\<close>

theorem get_breadcrumbs_resolved_levels:
  assumes "parts = split_on sep (slash_trim path)"
    and "concat parts \<noteq> []"
    and "\<forall>i < length parts + 1.
           Breadcrumb wd fs root (prefix_path parts i) [] template start is_local webroot = Inr (c i)"
  shows "get_breadcrumbs wd fs root path start template is_local webroot
     = Inr (filter (\<lambda>b. bc_md_file b \<noteq> None \<and> bc_html b \<noteq> []) (map c [0 ..< length parts + 1]))"
proof -
  have all: "\<forall>i \<in> set [0 ..< length parts + 1].
      Breadcrumb wd fs root (prefix_path parts i) [] template start is_local webroot = Inr (c i)"
    using assms(3) by simp
  have "Breadcrumb_exists (c i) = (bc_md_file (c i) \<noteq> None \<and> bc_html (c i) \<noteq> [])"
    if "i \<in> set [0 ..< length parts + 1]" for i
    using Breadcrumb_html_resolved [of wd fs root "prefix_path parts i" "[]" template start
        is_local webroot "c i"] all that
    by (auto simp: Breadcrumb_exists_def)
  then have "filter Breadcrumb_exists (map c [0 ..< length parts + 1])
      = filter (\<lambda>b. bc_md_file b \<noteq> None \<and> bc_html b \<noteq> []) (map c [0 ..< length parts + 1])"
    by (intro filter_cong) auto
  then show ?thesis
    using crumbs_loop_filter [OF all] assms(1,2)
    by (simp add: get_breadcrumbs_def Let_def)
qed

text \<open>
  Claim C5 as amended, at the site \<open>/w\<close> with the single file \<open>a/a.md\<close>: the root level
  has no index and is left out, the level \<open>a\<close> below it is still looked up and is the
  one crumb returned.
\<close>

theorem get_breadcrumbs_resolved_levels_witness:
  "get_breadcrumbs (Some ''/w'') site_a ''./'' ''a'' (Some ''./a'') ''<{href}|{text}>'' True []
     = Inr [\<lparr>bc_path = Some ''a'', bc_md_file = Some ''a.md'', bc_html_file = Some ''a.html'',
             bc_text = ''A'', bc_html = ''<a.html|A>''\<rparr>]"
proof -
  let ?b = "\<lparr>bc_path = Some ''a'', bc_md_file = Some ''a.md'', bc_html_file = Some ''a.html'',
             bc_text = ''A'', bc_html = ''<a.html|A>''\<rparr>"
  let ?c = "\<lambda>i::nat. if i = 0 then unset_breadcrumb else ?b"
  have parts: "[''a''] = split_on sep (slash_trim ''a'')" by code_simp
  have ne: "concat [''a''] \<noteq> []" by simp
  have p0: "prefix_path [''a''] 0 = []" and p1: "prefix_path [''a''] 1 = ''a''"
    by (simp_all add: prefix_path_def join_list_def)
  have fm: "format ''<{href}|{text}>'' ''a.html'' ''A'' = Inr ''<a.html|A>''" by code_simp
  note B0 = level_root_crumb [of "''<{href}|{text}>''"]
  note B1 = level_a_crumb [OF fm]
  have all: "\<forall>i < length [''a''] + 1.
      Breadcrumb (Some ''/w'') site_a ''./'' (prefix_path [''a''] i) []
        ''<{href}|{text}>'' (Some ''./a'') True [] = Inr (?c i)"
  proof (intro allI impI)
    fix i :: nat
    assume "i < length [''a''] + 1"
    then have "i = 0 \<or> i = 1" by auto
    then show "Breadcrumb (Some ''/w'') site_a ''./'' (prefix_path [''a''] i) []
        ''<{href}|{text}>'' (Some ''./a'') True [] = Inr (?c i)"
      using B0 B1 p0 p1 by auto
  qed
  have "[0 ..< length [''a''] + 1] = [0, 1]" by (simp add: upt_rec)
  then show ?thesis
    using get_breadcrumbs_resolved_levels [OF parts ne all]
    by (simp add: unset_breadcrumb_def)
qed

text \<open>
  Claim C10. \<open>exists()\<close> is true exactly when the rendered \<open>html\<close> string is non-empty. A
  \<open>Breadcrumb\<close> built with the empty template has the empty \<open>html\<close>, whether or not an
  index document was found for its directory, so \<open>exists()\<close> is false for it, and for
  a target other than the root \<open>get_breadcrumbs\<close> returns no crumb at all. The
  constructor returns whenever the working directory exists; whenever it returns,
  with or without a working directory, \<open>exists()\<close> is false.
\<close>

theorem empty_template_drops_crumbs:
  "Breadcrumb_exists c = (bc_html c \<noteq> [])
   \<and> (\<exists>b. Breadcrumb (Some cwd) fs root path text [] start is_local webroot = Inr b
          \<and> \<not> Breadcrumb_exists b)
   \<and> (concat (split_on sep (slash_trim path)) \<noteq> [] \<longrightarrow>
        get_breadcrumbs (Some cwd) fs root path start [] is_local webroot = Inr [])
   \<and> (Breadcrumb wd fs root path text [] start is_local webroot = Inr b' \<longrightarrow>
        \<not> Breadcrumb_exists b')"
proof -
  have 1: "Breadcrumb_exists c = (bc_html c \<noteq> [])"
    by (simp add: Breadcrumb_exists_def)
  have 2: "\<exists>b. Breadcrumb (Some cwd) fs root path text [] start is_local webroot = Inr b
          \<and> \<not> Breadcrumb_exists b"
    using Breadcrumb_empty_template [of cwd fs root path "text" start is_local webroot]
    by (auto simp: Breadcrumb_exists_def)
  have 3: "concat (split_on sep (slash_trim path)) \<noteq> [] \<longrightarrow>
        get_breadcrumbs (Some cwd) fs root path start [] is_local webroot = Inr []"
    by (simp add: get_breadcrumbs_def Let_def crumbs_loop_empty_template)
  have 4: "Breadcrumb wd fs root path text [] start is_local webroot = Inr b' \<longrightarrow>
        \<not> Breadcrumb_exists b'"
    by (auto simp: Breadcrumb_def Let_def Breadcrumb_exists_def unset_breadcrumb_def
        split: sum.splits option.splits)
  show ?thesis using 1 2 3 4 by blast
qed

text \<open>
  Claim C10 at the site \<open>/w\<close> with the single file \<open>a/a.md\<close>: the crumb of level \<open>a\<close> has
  its index document, and with the empty template it does not exist.
\<close>

theorem empty_template_drops_crumbs_witness:
  "concat (split_on sep (slash_trim ''a'')) \<noteq> []
   \<and> get_breadcrumbs (Some ''/w'') site_a ''./'' ''a'' (Some ''./a'') [] True [] = Inr []
   \<and> Breadcrumb (Some ''/w'') site_a ''./'' ''a'' [] [] (Some ''./a'') True []
       = Inr \<lparr>bc_path = Some ''a'', bc_md_file = Some ''a.md'', bc_html_file = Some ''a.html'',
               bc_text = ''A'', bc_html = []\<rparr>
   \<and> \<not> Breadcrumb_exists \<lparr>bc_path = Some ''a'', bc_md_file = Some ''a.md'',
         bc_html_file = Some ''a.html'', bc_text = ''A'', bc_html = []\<rparr>"
proof -
  have ne: "concat (split_on sep (slash_trim ''a'')) \<noteq> []" by code_simp
  have fm: "format [] ''a.html'' ''A'' = Inr []" by simp
  note B1 = level_a_crumb [OF fm]
  show ?thesis
    using empty_template_drops_crumbs [of _ "''/w''" site_a "''./''" "''a''"
        "[]" "Some ''./a''" True "[]" "Some ''/w''"
        "\<lparr>bc_path = Some ''a'', bc_md_file = Some ''a.md'', bc_html_file = Some ''a.html'',
               bc_text = ''A'', bc_html = []\<rparr>"] ne B1
    by auto
qed

section \<open>Claims about Local-mode references\<close>

text \<open>
  Claim C8. In Local mode the lookup is given a start path, and the reference it
  returns for a path \<open>x\<close> is \<open>relpath(x, start)\<close>, which exists for every non-empty \<open>x\<close>.
  The reference \<open>r\<close> is a stable fixed point: read from the location it was written
  for, that is as \<open>join(start, r)\<close>, it resolves to \<open>r\<close> again, and when the start
  location is the working directory \<open>r\<close> itself resolves to \<open>r\<close>. The path need not
  even be normalized. Without a start path the reference is the path cut after the
  root, and put back behind what was cut it gives the same reference.
\<close>

theorem local_resolution_stable_from_start:
  assumes "isabs cwd" and "start \<noteq> []"
    and "crumb_ref (Some cwd) k x root (Some start) True webroot = Inr r"
  shows "crumb_ref (Some cwd) k (join start r) root (Some start) True webroot = Inr r
         \<and> (location cwd start = location cwd ''.'' \<longrightarrow>
              crumb_ref (Some cwd) k r root (Some start) True webroot = Inr r)
         \<and> (y \<noteq> [] \<longrightarrow> (\<exists>r'. crumb_ref (Some cwd) k y root (Some start) True webroot = Inr r'))
         \<and> (\<exists>r'. crumb_ref wd k y root None True webroot = Inr r'
                \<and> crumb_ref wd k (take (length root + k) y @ r') root None True webroot = Inr r')"
proof -
  have 1: "crumb_ref (Some cwd) k (join start r) root (Some start) True webroot = Inr r
         \<and> (location cwd start = location cwd ''.'' \<longrightarrow>
              crumb_ref (Some cwd) k r root (Some start) True webroot = Inr r)"
    using relpath_stable_from_start [OF assms(1), of x start r] assms(2,3)
    by (simp add: crumb_ref_local_start)
  have 2: "y \<noteq> [] \<longrightarrow> (\<exists>r'. crumb_ref (Some cwd) k y root (Some start) True webroot = Inr r')"
    using crumb_ref_returns by blast
  have 3: "\<exists>r'. crumb_ref wd k y root None True webroot = Inr r'
                \<and> crumb_ref wd k (take (length root + k) y @ r') root None True webroot = Inr r'"
  proof (intro exI conjI)
    show "crumb_ref wd k y root None True webroot = Inr (drop (length root + k) y)"
      by (simp add: crumb_ref_def)
    show "crumb_ref wd k (take (length root + k) y @ drop (length root + k) y) root None True
        webroot = Inr (drop (length root + k) y)"
      by (simp only: append_take_drop_id) (simp add: crumb_ref_def)
  qed
  show ?thesis using 1 2 3 by blast
qed

text \<open>
  Claim C8 under \<open>/w\<close>: with the start \<open>a\<close>, and with the start \<open>./\<close>, which is the working
  directory.
\<close>

theorem local_resolution_stable_from_start_witness:
  "crumb_ref (Some ''/w'') 0 ''a/b.md'' ''.'' (Some ''a'') True [] = Inr ''b.md''
   \<and> crumb_ref (Some ''/w'') 0 (join ''a'' ''b.md'') ''.'' (Some ''a'') True [] = Inr ''b.md''
   \<and> crumb_ref (Some ''/w'') 0 ''./a/../a/b.md'' ''.'' (Some ''./'') True [] = Inr ''a/b.md''
   \<and> location ''/w'' ''./'' = location ''/w'' ''.''
   \<and> crumb_ref (Some ''/w'') 0 ''a/b.md'' ''.'' (Some ''./'') True [] = Inr ''a/b.md''"
proof -
  have cwd: "isabs ''/w''" by code_simp
  have r1: "crumb_ref (Some ''/w'') 0 ''a/b.md'' ''.'' (Some ''a'') True [] = Inr ''b.md''"
    by code_simp
  have r2: "crumb_ref (Some ''/w'') 0 ''./a/../a/b.md'' ''.'' (Some ''./'') True [] = Inr ''a/b.md''"
    by code_simp
  have l: "location ''/w'' ''./'' = location ''/w'' ''.''" by code_simp
  have 1: "crumb_ref (Some ''/w'') 0 (join ''a'' ''b.md'') ''.'' (Some ''a'') True [] = Inr ''b.md''"
    using local_resolution_stable_from_start [OF cwd _ r1] by simp
  have 2: "crumb_ref (Some ''/w'') 0 ''a/b.md'' ''.'' (Some ''./'') True [] = Inr ''a/b.md''"
    using local_resolution_stable_from_start [OF cwd _ r2] l by simp
  show ?thesis using r1 1 r2 l 2 by blast
qed

section \<open>Claims about get_url_path\<close>

text \<open>
  Claim C6. In Web addressing mode the URL that \<open>get_url_path\<close> returns, for every link,
  document path, site root and web base prefix, begins with the character \<open>/\<close> and
  contains no backslash. On a POSIX host whose working directory exists the function
  returns such a URL for every input; on any host, whatever its \<open>join\<close>, \<open>abspath\<close> and
  \<open>relpath\<close> compute and whatever separator they use, a URL that is returned has this
  form.
\<close>

theorem get_url_path_web_form:
  "(\<exists>url. get_url_path (Some cwd) link path root webroot = Inr url
      \<and> url \<noteq> [] \<and> hd url = sep \<and> bslash \<notin> set url)
   \<and> (get_url_path_on h link path root webroot = Inr url' \<longrightarrow>
        url' \<noteq> [] \<and> hd url' = sep \<and> bslash \<notin> set url')"
proof -
  obtain url where u: "get_url_path (Some cwd) link path root webroot = Inr url"
    using get_url_path_returns by blast
  then have "url \<noteq> [] \<and> hd url = sep \<and> bslash \<notin> set url"
    unfolding get_url_path_def by (rule get_url_path_on_form)
  then show ?thesis
    using u get_url_path_on_form [of h link path root webroot url'] by blast
qed

text \<open>
  Claim C6 on a host that writes paths with backslashes: its \<open>join\<close> puts a backslash
  between the parts, its \<open>abspath\<close> puts the drive \<open>C:\<close> in front, and its \<open>relpath\<close>
  cuts the start off.
\<close>

theorem get_url_path_web_form_witness:
  "get_url_path_on
     \<lparr>op_join = (\<lambda>a b. a @ [bslash] @ b),
      op_abspath = (\<lambda>p. Inr (''C:'' @ [bslash] @ p)),
      op_relpath = (\<lambda>p s. Inr (drop (length s) p))\<rparr>
     ''pic.png'' ''img'' [] ''site''
     = Inr ''/site/img/pic.png''
   \<and> ''/site/img/pic.png'' \<noteq> [] \<and> hd ''/site/img/pic.png'' = sep
   \<and> bslash \<notin> set ''/site/img/pic.png''"
proof -
  have "get_url_path_on
     \<lparr>op_join = (\<lambda>a b. a @ [bslash] @ b),
      op_abspath = (\<lambda>p. Inr (''C:'' @ [bslash] @ p)),
      op_relpath = (\<lambda>p s. Inr (drop (length s) p))\<rparr>
     ''pic.png'' ''img'' [] ''site''
     = Inr ''/site/img/pic.png''"
    by (simp add: get_url_path_on_def Let_def startswith_def)
  then show ?thesis
    using get_url_path_web_form [of _ "''pic.png''" "''img''" "[]" "''site''"
        "\<lparr>op_join = (\<lambda>a b. a @ [bslash] @ b),
          op_abspath = (\<lambda>p. Inr (''C:'' @ [bslash] @ p)),
          op_relpath = (\<lambda>p s. Inr (drop (length s) p))\<rparr>"
        "''/site/img/pic.png''"]
    by simp
qed

text \<open>
  Claim C7 as stated fails. \<open>get_url_path\<close> asks for the working directory of the
  process: after that directory has been removed, a relative link raises
  \<open>FileNotFoundError\<close>; and with the same four arguments the URL differs from one
  working directory to another.
\<close>

theorem get_url_path_raises_without_cwd:
  "get_url_path None ''a.md'' ''docs'' ''.'' [] = Inl FileNotFoundError
   \<and> get_url_path (Some ''/w'') ''a.md'' ''docs'' ''/w'' [] = Inr ''/docs/a.md''
   \<and> get_url_path (Some ''/v'') ''a.md'' ''docs'' ''/w'' [] = Inr ''/../v/docs/a.md''"
  by code_simp

text \<open>
  Claim C7, as amended. \<open>get_url_path\<close> reads the working directory and nothing else.
  When the working directory exists it returns a URL for every link, path, root and
  web base prefix, malformed or empty, and raises nothing. When the working directory
  has been removed it returns if the joined link path and the root are both absolute,
  and raises \<open>FileNotFoundError\<close> otherwise. On any host it raises exactly what the
  host's \<open>abspath\<close> of the joined link path, \<open>abspath\<close> of the root, or \<open>relpath\<close> of the
  two results raises, the first of them in this order.
\<close>

theorem get_url_path_total_with_cwd:
  "(\<exists>url. get_url_path (Some cwd) link path root webroot = Inr url)
   \<and> (isabs (join path (replace ''file:///'' [] link)) \<and> isabs root \<longrightarrow>
        (\<exists>url. get_url_path None link path root webroot = Inr url))
   \<and> (\<not> (isabs (join path (replace ''file:///'' [] link)) \<and> isabs root) \<longrightarrow>
        get_url_path None link path root webroot = Inl FileNotFoundError)
   \<and> (get_url_path_on h link path root webroot = Inl e \<longleftrightarrow>
        op_abspath h (op_join h path (replace ''file:///'' [] link)) = Inl e
        \<or> (\<exists>lp. op_abspath h (op_join h path (replace ''file:///'' [] link)) = Inr lp
              \<and> (op_abspath h root = Inl e
                  \<or> (\<exists>rp. op_abspath h root = Inr rp \<and> op_relpath h lp rp = Inl e))))"
proof -
  let ?l = "join path (replace ''file:///'' [] link)"
  have 1: "\<exists>url. get_url_path (Some cwd) link path root webroot = Inr url"
    by (rule get_url_path_returns)
  have 2: "\<exists>url. get_url_path None link path root webroot = Inr url"
    if a: "isabs ?l" "isabs root"
  proof -
    have l: "abspath None ?l = Inr (normpath ?l)" and r: "abspath None root = Inr (normpath root)"
      using a by (simp_all add: abspath_None)
    have nl: "isabs (normpath ?l)" and nr: "isabs (normpath root)"
      using a by (simp_all add: isabs_normpath)
    have "\<exists>u. relpath None (normpath ?l) (normpath root) = Inr u"
      using nl nr isabs_nonempty [OF nl]
      by (simp add: relpath_def abspath_None Let_def)
    then show ?thesis
      using l r
      by (auto simp: get_url_path_def get_url_path_on_def posixpath_def Let_def
          simp del: replace.simps)
  qed
  have 3: "get_url_path None link path root webroot = Inl FileNotFoundError"
    if a: "\<not> (isabs ?l \<and> isabs root)"
  proof (cases "isabs ?l")
    case False
    then have "abspath None ?l = Inl FileNotFoundError" by (simp add: abspath_None)
    then show ?thesis
      by (simp add: get_url_path_def get_url_path_on_def posixpath_def Let_def
          del: replace.simps)
  next
    case True
    then have l: "abspath None ?l = Inr (normpath ?l)" by (simp add: abspath_None)
    have "abspath None root = Inl FileNotFoundError" using a True by (simp add: abspath_None)
    then show ?thesis
      using l
      by (simp add: get_url_path_def get_url_path_on_def posixpath_def Let_def
          del: replace.simps)
  qed
  have 4: "get_url_path_on h link path root webroot = Inl e \<longleftrightarrow>
        op_abspath h (op_join h path (replace ''file:///'' [] link)) = Inl e
        \<or> (\<exists>lp. op_abspath h (op_join h path (replace ''file:///'' [] link)) = Inr lp
              \<and> (op_abspath h root = Inl e
                  \<or> (\<exists>rp. op_abspath h root = Inr rp \<and> op_relpath h lp rp = Inl e)))"
    by (auto simp: get_url_path_on_def Let_def split: sum.splits simp del: replace.simps)
  show ?thesis using 1 2 3 4 by blast
qed

text \<open>
  Claim C7 as amended, at runs of \<open>get_url_path\<close>: under \<open>/w\<close>, a link with a backslash
  and a \<open>file:///\<close> prefix from the document directory \<open>docs\<close> of the site \<open>.\<close>, and the
  empty link, path, root and web base; without a working directory, an absolute link
  below the absolute root \<open>/w\<close>, and a relative link; and on a host whose \<open>relpath\<close>
  raises \<open>ValueError\<close>, as that of a host with drive letters does for two paths on
  different drives.
\<close>

theorem get_url_path_total_with_cwd_witness:
  "get_url_path (Some ''/w'') (''file:///img'' @ [bslash] @ ''pic.png'') ''docs'' ''.'' ''site''
     = Inr ''/site/docs/img/pic.png''
   \<and> get_url_path (Some ''/w'') [] [] [] [] = Inr ''/.''
   \<and> isabs (join ''docs'' (replace ''file:///'' [] ''/w/docs/a.md'')) \<and> isabs ''/w''
   \<and> get_url_path None ''/w/docs/a.md'' ''docs'' ''/w'' [] = Inr ''/docs/a.md''
   \<and> \<not> isabs (join ''docs'' (replace ''file:///'' [] ''a.md''))
   \<and> get_url_path None ''a.md'' ''docs'' ''/w'' [] = Inl FileNotFoundError
   \<and> get_url_path_on
        \<lparr>op_join = join, op_abspath = Inr, op_relpath = (\<lambda>p s. Inl ValueError)\<rparr>
        ''a.md'' ''D:/docs'' ''C:/site'' [] = Inl ValueError"
proof -
  have a: "get_url_path (Some ''/w'') (''file:///img'' @ [bslash] @ ''pic.png'') ''docs'' ''.''
      ''site'' = Inr ''/site/docs/img/pic.png''"
    by code_simp
  have b: "get_url_path (Some ''/w'') [] [] [] [] = Inr ''/.''" by code_simp
  have c: "isabs (join ''docs'' (replace ''file:///'' [] ''/w/docs/a.md'')) \<and> isabs ''/w''"
    by code_simp
  have d: "get_url_path None ''/w/docs/a.md'' ''docs'' ''/w'' [] = Inr ''/docs/a.md''"
    by code_simp
  have e: "\<not> isabs (join ''docs'' (replace ''file:///'' [] ''a.md''))" by code_simp
  have f: "get_url_path None ''a.md'' ''docs'' ''/w'' [] = Inl FileNotFoundError"
    using get_url_path_total_with_cwd [of _ "''a.md''" "''docs''" "''/w''" "[]"] e by blast
  have g: "get_url_path_on
        \<lparr>op_join = join, op_abspath = Inr, op_relpath = (\<lambda>p s. Inl ValueError)\<rparr>
        ''a.md'' ''D:/docs'' ''C:/site'' [] = Inl ValueError"
    using get_url_path_total_with_cwd [of _ "''a.md''" "''D:/docs''" "''C:/site''" "[]"
        "\<lparr>op_join = join, op_abspath = Inr, op_relpath = (\<lambda>p s. Inl ValueError)\<rparr>"
        ValueError]
    by simp
  show ?thesis using a b c d e f g by blast
qed

section \<open>Claims about fix_links and fix_imgs\<close>

text \<open>
  Claim C2. The flag \<open>is_xlink\<close> is never reset inside the loop of \<open>fix_links\<close>: after an
  anchor read from \<open>xlink:href\<close>, an anchor read from \<open>href\<close> gets its rewritten value
  stored under \<open>xlink:href\<close>, and its \<open>href\<close> keeps the old value.
\<close>

theorem fix_links_xlink_flag_carried_over:
  "fix_links (Some ''/w'') \<lparr>doc_is_local = True, doc_path = ''./a'', doc_root = ''./'',
       doc_webroot = [],
       soup = [Element ''a'' [(''xlink:href'', Some ''x.md'')],
               Element ''a'' [(''href'', Some ''y.md'')]]\<rparr>
   = Inr \<lparr>doc_is_local = True, doc_path = ''./a'', doc_root = ''./'', doc_webroot = [],
       soup = [Element ''a'' [(''xlink:href'', Some ''x.html'')],
               Element ''a'' [(''href'', Some ''y.md''), (''xlink:href'', Some ''y.html'')]]\<rparr>"
  by code_simp




text \<open>
  Claim C9. When the fragment holds an anchor with neither an \<open>href\<close> nor an
  \<open>xlink:href\<close> attribute, \<open>fix_links\<close> raises instead of skipping the anchor, and the
  driver's \<open>except\<close> branch reports the file. With a working directory the exception
  is the \<open>TypeError\<close> of the placeholder pattern matched against \<open>None\<close>, whatever the
  other elements are.
\<close>

theorem fix_links_absent_href_raises:
  assumes "link \<in> set (soup d)" "tag link = ''a''"
    "map_of (attrs link) ''href'' = None" "map_of (attrs link) ''xlink:href'' = None"
  shows "fix_links (Some cwd) d = Inl TypeError \<and> convert_file (Some cwd) d = Error_reported
         \<and> (\<exists>e. fix_links wd d = Inl e) \<and> convert_file wd d = Error_reported"
proof -
  obtain e where e: "fix_links_loop (Some cwd) d False (soup d) = Inl e"
    using fix_links_loop_absent [OF assms] by blast
  then have "e = TypeError" by (rule fix_links_loop_error)
  then have 1: "fix_links (Some cwd) d = Inl TypeError \<and> convert_file (Some cwd) d = Error_reported"
    using e by (simp add: fix_links_def fix_html_def convert_file_def)
  obtain e' where "fix_links_loop wd d False (soup d) = Inl e'"
    using fix_links_loop_absent [OF assms] by blast
  then have 2: "(\<exists>e. fix_links wd d = Inl e) \<and> convert_file wd d = Error_reported"
    by (simp add: fix_links_def fix_html_def convert_file_def)
  show ?thesis using 1 2 by blast
qed

text \<open>
  Claim C9 at a fragment whose second anchor has only a \<open>name\<close> attribute.
\<close>

theorem fix_links_absent_href_raises_witness:
  "fix_links (Some ''/w'') \<lparr>doc_is_local = True, doc_path = ''./a'', doc_root = ''./'',
       doc_webroot = [],
       soup = [Element ''a'' [(''href'', Some ''x.md'')], Element ''a'' [(''name'', Some ''top'')]]\<rparr>
     = Inl TypeError
   \<and> convert_file (Some ''/w'') \<lparr>doc_is_local = True, doc_path = ''./a'', doc_root = ''./'',
       doc_webroot = [],
       soup = [Element ''a'' [(''href'', Some ''x.md'')], Element ''a'' [(''name'', Some ''top'')]]\<rparr>
     = Error_reported"
  using fix_links_absent_href_raises [of "Element ''a'' [(''name'', Some ''top'')]"
      "\<lparr>doc_is_local = True, doc_path = ''./a'', doc_root = ''./'', doc_webroot = [],
       soup = [Element ''a'' [(''href'', Some ''x.md'')], Element ''a'' [(''name'', Some ''top'')]]\<rparr>"
      "''/w''"]
  by simp

end
